theory Spec2Isabelle
  imports Complex_Main "HOL-Library.AList"
begin

section \<open>JSON values and the Python operations the tool applies to them\<close>

text \<open>
  The tool \<^verbatim>\<open>figma_ios_bfs_tool.py\<close> works on values loaded by \<^verbatim>\<open>json.load\<close>.
  A JSON object is a Python \<^verbatim>\<open>dict\<close>: insertion ordered, one entry per key. It is
  modelled as an association list whose keys are distinct; \<open>map_of\<close> is the lookup,
  \<open>AList.update\<close> the assignment \<^verbatim>\<open>d[k] = v\<close> (it overwrites in place or appends).
  Numbers are modelled as exact rationals (Python's \<^verbatim>\<open>int\<close> and \<^verbatim>\<open>float\<close> are not
  told apart, and rounding of floating point arithmetic is not modelled); strings
  are lists of 8-bit characters and are read as ASCII.
\<close>

datatype json =
    JNull
  | JBool bool
  | JNum rat
  | JStr string
  | JArr "json list"
  | JObj "(string \<times> json) list"

type_synonym pydict = "(string \<times> json) list"

text \<open>\<^verbatim>\<open>d.get(k)\<close>: the value, or \<^verbatim>\<open>None\<close> when the key is missing.\<close>

definition dget :: "pydict \<Rightarrow> string \<Rightarrow> json" where
  "dget d k = (case map_of d k of None \<Rightarrow> JNull | Some v \<Rightarrow> v)"

text \<open>\<^verbatim>\<open>d.get(k, default)\<close>.\<close>

definition dget_default :: "pydict \<Rightarrow> string \<Rightarrow> json \<Rightarrow> json" where
  "dget_default d k dflt = (case map_of d k of None \<Rightarrow> dflt | Some v \<Rightarrow> v)"

text \<open>\<^verbatim>\<open>k in d\<close>.\<close>

definition has_key :: "('k \<times> 'v) list \<Rightarrow> 'k \<Rightarrow> bool" where
  "has_key d k = (map_of d k \<noteq> None)"

text \<open>\<^verbatim>\<open>d[k] = v\<close>.\<close>

definition dset :: "('k \<times> 'v) list \<Rightarrow> 'k \<Rightarrow> 'v \<Rightarrow> ('k \<times> 'v) list" where
  "dset d k v = AList.update k v d"

text \<open>Python truthiness (\<^verbatim>\<open>bool(v)\<close>, \<^verbatim>\<open>if v\<close>, \<^verbatim>\<open>a or b\<close>).\<close>

fun truthy :: "json \<Rightarrow> bool" where
  "truthy JNull = False"
| "truthy (JBool b) = b"
| "truthy (JNum q) = (q \<noteq> 0)"
| "truthy (JStr s) = (s \<noteq> [])"
| "truthy (JArr xs) = (xs \<noteq> [])"
| "truthy (JObj d) = (d \<noteq> [])"

definition py_or :: "json \<Rightarrow> json \<Rightarrow> json" where
  "py_or a b = (if truthy a then a else b)"

text \<open>\<^verbatim>\<open>is_number\<close>: an \<^verbatim>\<open>int\<close> or \<^verbatim>\<open>float\<close> that is not a \<^verbatim>\<open>bool\<close>.\<close>

fun is_number :: "json \<Rightarrow> bool" where
  "is_number (JNum q) = True"
| "is_number v = False"

text \<open>\<^verbatim>\<open>float(v)\<close> of a value that passed \<^verbatim>\<open>is_number\<close>.\<close>

fun float_of :: "json \<Rightarrow> rat" where
  "float_of (JNum q) = q"
| "float_of v = 0"

fun is_dict :: "json \<Rightarrow> bool" where
  "is_dict (JObj d) = True"
| "is_dict v = False"

text \<open>The entries of a value that passed \<^verbatim>\<open>isinstance(v, dict)\<close>.\<close>

fun dict_of :: "json \<Rightarrow> pydict" where
  "dict_of (JObj d) = d"
| "dict_of v = []"

subsection \<open>Strings\<close>

definition lower_letters :: string where
  "lower_letters = ''abcdefghijklmnopqrstuvwxyz''"

definition upper_letters :: string where
  "upper_letters = ''ABCDEFGHIJKLMNOPQRSTUVWXYZ''"

definition digit_chars :: string where
  "digit_chars = ''0123456789''"

definition upper_char :: "char \<Rightarrow> char" where
  "upper_char c = (case map_of (zip lower_letters upper_letters) c of None \<Rightarrow> c | Some u \<Rightarrow> u)"

definition lower_char :: "char \<Rightarrow> char" where
  "lower_char c = (case map_of (zip upper_letters lower_letters) c of None \<Rightarrow> c | Some l \<Rightarrow> l)"

text \<open>\<^verbatim>\<open>s.upper()\<close> and \<^verbatim>\<open>s.lower()\<close> on ASCII.\<close>

definition upper :: "string \<Rightarrow> string" where
  "upper s = map upper_char s"

definition lower :: "string \<Rightarrow> string" where
  "lower s = map lower_char s"

text \<open>The ASCII characters \<^verbatim>\<open>str.strip()\<close> removes.\<close>

definition is_space :: "char \<Rightarrow> bool" where
  "is_space c = (c \<in> set [CHR '' '', CHR 0x09, CHR 0x0A, CHR 0x0B, CHR 0x0C, CHR 0x0D,
                            CHR 0x1C, CHR 0x1D, CHR 0x1E, CHR 0x1F])"

definition strip :: "string \<Rightarrow> string" where
  "strip s = rev (dropWhile is_space (rev (dropWhile is_space s)))"

text \<open>\<^verbatim>\<open>sep.join(parts)\<close>.\<close>

fun join :: "string \<Rightarrow> string list \<Rightarrow> string" where
  "join sep [] = []"
| "join sep [p] = p"
| "join sep (p # q # ps) = p @ sep @ join sep (q # ps)"

text \<open>Decimal digits of a natural number, and \<^verbatim>\<open>str(n)\<close> of a Python \<^verbatim>\<open>int\<close>.\<close>

fun show_nat :: "nat \<Rightarrow> string" where
  "show_nat n = (if n < 10 then [digit_chars ! n] else show_nat (n div 10) @ [digit_chars ! (n mod 10)])"

definition show_int :: "int \<Rightarrow> string" where
  "show_int i = (if i < 0 then CHR ''-'' # show_nat (nat (- i)) else show_nat (nat i))"

text \<open>
  \<^verbatim>\<open>str(v)\<close>. On a string it is the string itself. The \<^verbatim>\<open>repr\<close> of a
  non-integral number, of a list and of a dict is not modelled character by
  character; a bracketed stand-in takes its place. The program only upper-cases
  such a result and compares it with fixed words (\<^verbatim>\<open>TEXT\<close>, \<^verbatim>\<open>MAX\<close>, ...) or with
  the empty string, and no \<^verbatim>\<open>repr\<close> of a non-string JSON value is one of those.
\<close>

fun py_str :: "json \<Rightarrow> string" where
  "py_str JNull = ''None''"
| "py_str (JBool b) = (if b then ''True'' else ''False'')"
| "py_str (JNum q) = (if q = of_int \<lfloor>q\<rfloor> then show_int \<lfloor>q\<rfloor> else ''<float>'')"
| "py_str (JStr s) = s"
| "py_str (JArr xs) = ''[...]''"
| "py_str (JObj d) = ''{...}''"

declare show_nat.simps [simp del]

section \<open>Fact extraction\<close>

text \<open>
  \<^verbatim>\<open>name_tokens\<close>: a space is put between a lower-case letter or digit and the
  capital that follows it (\<^verbatim>\<open>re.sub\<close>, matches taken left to right without
  overlap), the separators \<^verbatim>\<open>/ - _\<close> become spaces, and the maximal runs of
  \<^verbatim>\<open>[a-z0-9]\<close> of the lower-cased string are the tokens (\<^verbatim>\<open>re.findall\<close>).
\<close>

fun camel_split :: "string \<Rightarrow> string" where
  "camel_split (a # b # rest) =
     (if (a \<in> set lower_letters \<or> a \<in> set digit_chars) \<and> b \<in> set upper_letters
      then a # CHR '' '' # b # camel_split rest
      else a # camel_split (b # rest))"
| "camel_split s = s"

definition replace_separators :: "string \<Rightarrow> string" where
  "replace_separators s = map (\<lambda>c. if c \<in> set ''/-_'' then CHR '' '' else c) s"

fun alnum_runs :: "string \<Rightarrow> string \<Rightarrow> string list" where
  "alnum_runs cur [] = (if cur = [] then [] else [cur])"
| "alnum_runs cur (c # cs) =
     (if c \<in> set lower_letters \<or> c \<in> set digit_chars
      then alnum_runs (cur @ [c]) cs
      else (if cur = [] then [] else [cur]) @ alnum_runs [] cs)"

definition name_tokens :: "json \<Rightarrow> string list" where
  "name_tokens raw =
     (if raw = JNull then []
      else alnum_runs [] (lower (replace_separators (camel_split (py_str raw)))))"

text \<open>\<^verbatim>\<open>is_number(v) and float(v) != c\<close>.\<close>

definition number_differs :: "json \<Rightarrow> rat \<Rightarrow> bool" where
  "number_differs v c = (is_number v \<and> float_of v \<noteq> c)"

text \<open>\<^verbatim>\<open>isinstance(v, str) and v\<close>.\<close>

definition nonempty_str :: "json \<Rightarrow> bool" where
  "nonempty_str v = (case v of JStr s \<Rightarrow> s \<noteq> [] | _ \<Rightarrow> False)"

text \<open>\<^verbatim>\<open>isinstance(v, str) and v.strip()\<close>, and \<^verbatim>\<open>v.strip()\<close> as a JSON string.\<close>

definition nonblank_str :: "json \<Rightarrow> bool" where
  "nonblank_str v = (case v of JStr s \<Rightarrow> strip s \<noteq> [] | _ \<Rightarrow> False)"

definition stripped :: "json \<Rightarrow> json" where
  "stripped v = JStr (strip (py_str v))"

definition pick_first_visible_paint :: "json \<Rightarrow> string \<Rightarrow> pydict option" where
  "pick_first_visible_paint paints paint_type =
     (case paints of
        JArr ps \<Rightarrow>
          map_option dict_of
            (find (\<lambda>p. is_dict p
                      \<and> dget_default (dict_of p) ''visible'' (JBool True) \<noteq> JBool False
                      \<and> upper (py_str (dget_default (dict_of p) ''type'' (JStr ''''))) = upper paint_type)
               ps)
      | _ \<Rightarrow> None)"

definition color_spec :: "json \<Rightarrow> pydict option" where
  "color_spec color_obj =
     (case color_obj of
        JObj c \<Rightarrow>
          (let token = dget c ''colorVariableName'';
               hex_rgba = dget c ''hexRGBA'';
               out0 = (if nonblank_str token then dset [] ''token'' (stripped token) else []);
               out1 = (if nonblank_str hex_rgba then dset out0 ''fallbackHex'' (stripped hex_rgba) else out0)
           in if out1 = [] then None else Some out1)
      | _ \<Rightarrow> None)"

definition extract_solid_fill_color :: "pydict \<Rightarrow> pydict option" where
  "extract_solid_fill_color node =
     (case pick_first_visible_paint (dget node ''fills'') ''SOLID'' of
        None \<Rightarrow> None
      | Some paint \<Rightarrow>
          if paint = [] then None
          else (case color_spec (dget paint ''color'') of
                  None \<Rightarrow> None
                | Some c \<Rightarrow>
                    (let out0 = [(''color'', JObj c)]
                     in Some (if number_differs (dget paint ''opacity'') 1
                              then dset out0 ''opacity'' (JNum (float_of (dget paint ''opacity'')))
                              else out0))))"

definition extract_solid_stroke :: "pydict \<Rightarrow> pydict option" where
  "extract_solid_stroke node =
     (case pick_first_visible_paint (dget node ''strokes'') ''SOLID'' of
        None \<Rightarrow> None
      | Some paint \<Rightarrow>
          if paint = [] then None
          else (case color_spec (dget paint ''color'') of
                  None \<Rightarrow> None
                | Some c \<Rightarrow>
                    (let out0 = [(''color'', JObj c)];
                         weight = dget_default node ''strokeWeight'' (dget node ''strokeWidth'');
                         out1 = (if number_differs weight 0
                                 then dset out0 ''width'' (JNum (float_of weight)) else out0);
                         align = dget node ''strokeAlign'';
                         out2 = (if nonempty_str align then dset out1 ''align'' align else out1)
                     in Some (if number_differs (dget paint ''opacity'') 1
                              then dset out2 ''opacity'' (JNum (float_of (dget paint ''opacity'')))
                              else out2))))"

definition extract_image :: "pydict \<Rightarrow> pydict option" where
  "extract_image node =
     (let paint = pick_first_visible_paint (dget node ''fills'') ''IMAGE'';
          hash0 = (case paint of
                     None \<Rightarrow> JNull
                   | Some p \<Rightarrow> py_or (dget p ''imageHash'') (dget p ''imageRef''));
          image_hash = py_or (py_or hash0 (dget node ''imageHash'')) (dget node ''imageRef'')
      in if (paint = None \<or> paint = Some []) \<and> \<not> truthy image_hash then None
         else
           (let out0 = (if nonempty_str image_hash then dset [] ''imageHash'' image_hash else []);
                out2 = (case paint of
                          None \<Rightarrow> out0
                        | Some p \<Rightarrow>
                            (let scale = dget p ''scaleMode'';
                                 out1 = (if nonempty_str scale then dset out0 ''scaleMode'' scale else out0)
                             in if number_differs (dget p ''opacity'') 1
                                then dset out1 ''opacity'' (JNum (float_of (dget p ''opacity'')))
                                else out1))
            in if out2 = [] then None else Some out2))"

definition extract_font :: "pydict \<Rightarrow> pydict option" where
  "extract_font node =
     (let token = py_or (dget node ''textVariableName'') (dget node ''textStyleVariableName'');
          font_name = dget node ''fontName'';
          font_size = dget node ''fontSize'';
          fb0 = (if nonblank_str font_name then dset [] ''name'' (stripped font_name) else []);
          fb1 = (if is_number font_size then dset fb0 ''size'' (JNum (float_of font_size)) else fb0);
          fallback =
            (case dget node ''style'' of
               JObj style \<Rightarrow>
                 (let v = py_or (dget style ''fontPostScriptName'') (dget style ''fontFamily'');
                      fb2 = (if \<not> has_key fb1 ''name'' \<and> nonblank_str v
                             then dset fb1 ''name'' (stripped v) else fb1);
                      fb3 = (if \<not> has_key fb2 ''size'' \<and> is_number (dget style ''fontSize'')
                             then dset fb2 ''size'' (JNum (float_of (dget style ''fontSize''))) else fb2)
                  in if is_number (dget style ''fontWeight'')
                     then dset fb3 ''weight'' (JNum (float_of (dget style ''fontWeight''))) else fb3)
             | _ \<Rightarrow> fb1);
          out0 = (if nonblank_str token then dset [] ''token'' (stripped token) else []);
          out1 = (if fallback \<noteq> [] then dset out0 ''fallback'' (JObj fallback) else out0)
      in if out1 = [] then None else Some out1)"

definition shadow_of :: "json \<Rightarrow> json option" where
  "shadow_of eff =
     (case eff of
        JObj e \<Rightarrow>
          (let t = upper (py_str (dget_default e ''type'' (JStr '''')))
           in if dget_default e ''visible'' (JBool True) = JBool False then None
              else if t \<noteq> ''DROP_SHADOW'' \<and> t \<noteq> ''INNER_SHADOW'' then None
              else
                (let s0 = [(''type'', JStr t)];
                     s1 = (case color_spec (dget e ''color'') of
                             None \<Rightarrow> s0 | Some c \<Rightarrow> dset s0 ''color'' (JObj c));
                     s2 = (case dget e ''offset'' of
                             JObj off \<Rightarrow>
                               if is_number (dget off ''x'') \<and> is_number (dget off ''y'')
                               then dset s1 ''offset''
                                      (JObj [(''x'', JNum (float_of (dget off ''x''))),
                                             (''y'', JNum (float_of (dget off ''y'')))])
                               else s1
                           | _ \<Rightarrow> s1);
                     s3 = (if is_number (dget e ''radius'')
                           then dset s2 ''radius'' (JNum (float_of (dget e ''radius''))) else s2);
                     s4 = (if is_number (dget e ''spread'')
                           then dset s3 ''spread'' (JNum (float_of (dget e ''spread''))) else s3)
                 in Some (JObj (if number_differs (dget e ''opacity'') 1
                                then dset s4 ''opacity'' (JNum (float_of (dget e ''opacity'')))
                                else s4))))
      | _ \<Rightarrow> None)"

definition extract_shadows :: "pydict \<Rightarrow> json list" where
  "extract_shadows node =
     (case dget node ''effects'' of
        JArr effects \<Rightarrow> List.map_filter shadow_of effects
      | _ \<Rightarrow> [])"

text \<open>
  The \<^verbatim>\<open>text\<close> entry of the facts of a node whose upper-cased type is \<^verbatim>\<open>TEXT\<close>
  (the body of \<^verbatim>\<open>if figma_type == "TEXT":\<close> in \<^verbatim>\<open>node_facts\<close>). A string longer
  than a non-negative \<^verbatim>\<open>max_text_len\<close> is cut with \<^verbatim>\<open>chars[:max_text_len]\<close> and
  the three characters \<^verbatim>\<open>...\<close> are appended to the cut.
\<close>

definition text_facts :: "pydict \<Rightarrow> int \<Rightarrow> pydict" where
  "text_facts node max_text_len =
     (let chars = py_or (dget node ''characters'') (dget node ''text'');
          text0 =
            (case chars of
               JStr s \<Rightarrow>
                 if s \<noteq> [] then
                   (if max_text_len \<ge> 0 \<and> int (length s) > max_text_len
                    then dset (dset [] ''characters'' (JStr (take (nat max_text_len) s @ ''...'')))
                              ''charactersTruncated'' (JBool True)
                    else dset [] ''characters'' (JStr s))
                 else []
             | _ \<Rightarrow> []);
          text1 = (case extract_font node of None \<Rightarrow> text0 | Some f \<Rightarrow> dset text0 ''font'' (JObj f));
          text2 = (case extract_solid_fill_color node of
                     None \<Rightarrow> text1
                   | Some fill \<Rightarrow> dset text1 ''textColor'' (dget fill ''color''))
      in text2)"

definition frame_keys :: "string list" where
  "frame_keys = [''x'', ''y'', ''width'', ''height'', ''rotation'']"

definition layout_keys :: "string list" where
  "layout_keys =
     [''layoutMode'', ''layoutPositioning'', ''layoutSizingHorizontal'', ''layoutSizingVertical'',
      ''constraints'', ''layoutGrow'', ''layoutAlign'', ''itemSpacing'', ''paddingLeft'',
      ''paddingRight'', ''paddingTop'', ''paddingBottom'', ''primaryAxisAlignItems'',
      ''counterAxisAlignItems'', ''layoutWrap'']"

definition frame_facts :: "pydict \<Rightarrow> pydict" where
  "frame_facts node =
     fold (\<lambda>k frame. if is_number (dget node k) then dset frame k (JNum (float_of (dget node k))) else frame)
          frame_keys []"

definition layout_facts :: "pydict \<Rightarrow> pydict" where
  "layout_facts node =
     fold (\<lambda>k layout. if dget node k \<noteq> JNull then dset layout k (dget node k) else layout)
          layout_keys []"

definition style_facts :: "pydict \<Rightarrow> pydict" where
  "style_facts node =
     (let s0 = (case extract_solid_fill_color node of
                  None \<Rightarrow> [] | Some bg \<Rightarrow> dset [] ''backgroundColor'' (JObj bg));
          s1 = (case extract_solid_stroke node of
                  None \<Rightarrow> s0 | Some stroke \<Rightarrow> dset s0 ''stroke'' (JObj stroke));
          cr = dget node ''cornerRadius'';
          s2 = (if number_differs cr 0 then dset s1 ''cornerRadius'' (JNum (float_of cr)) else s1);
          opacity = dget node ''opacity'';
          s3 = (if number_differs opacity 1 then dset s2 ''opacity'' (JNum (float_of opacity)) else s2);
          s4 = (if dget node ''clipsContent'' = JBool True then dset s3 ''clipsContent'' (JBool True) else s3);
          shadows = extract_shadows node
      in if shadows \<noteq> [] then dset s4 ''shadows'' (JArr shadows) else s4)"

text \<open>\<^verbatim>\<open>node_facts(node, max_text_len=...)\<close>: the compact facts object of one raw node.\<close>

definition node_facts :: "pydict \<Rightarrow> int \<Rightarrow> pydict" where
  "node_facts node max_text_len =
     (let figma_type = upper (py_str (dget_default node ''type'' (JStr '''')));
          facts0 = [(''nameTokens'', JArr (map JStr (name_tokens (dget node ''name'')))),
                    (''visible'', JBool (truthy (dget_default node ''visible'' (JBool True)))),
                    (''locked'', JBool (truthy (dget_default node ''locked'' (JBool False))))];
          frame = frame_facts node;
          facts1 = (if frame \<noteq> [] then dset facts0 ''frame'' (JObj frame) else facts0);
          layout = layout_facts node;
          facts2 = (if layout \<noteq> [] then dset facts1 ''layout'' (JObj layout) else facts1);
          style = style_facts node;
          facts3 = (if style \<noteq> [] then dset facts2 ''style'' (JObj style) else facts2);
          facts4 = (if figma_type = ''TEXT''
                    then (let txt = text_facts node max_text_len
                          in if txt \<noteq> [] then dset facts3 ''text'' (JObj txt) else facts3)
                    else facts3)
      in case extract_image node of
           None \<Rightarrow> facts4
         | Some img \<Rightarrow> dset facts4 ''image'' (JObj img))"

section \<open>Tree indexing and the breadth-first order\<close>

text \<open>
  A node record is the dict \<^verbatim>\<open>{id, name, type, parentId, depth, childIds, facts}\<close>
  that \<^verbatim>\<open>index_tree\<close> stores; the node map \<^verbatim>\<open>nodes\<close> is a dict from id to record,
  in insertion order.
\<close>

record node_rec =
  rec_id :: string
  rec_name :: string
  rec_type :: string
  parentId :: "string option"
  depth :: nat
  childIds :: "string list"
  facts :: pydict

type_synonym node_map = "(string \<times> node_rec) list"

definition should_include_node :: "pydict \<Rightarrow> bool \<Rightarrow> bool" where
  "should_include_node node include_invisible =
     (if include_invisible then True else truthy (dget_default node ''visible'' (JBool True)))"

text \<open>
  The first loop of \<^verbatim>\<open>visit\<close>: the ids of the children that are dicts, are
  included and have a non-empty string id. An id already indexed is not left out.
\<close>

definition child_id_of :: "bool \<Rightarrow> json \<Rightarrow> string option" where
  "child_id_of include_invisible c =
     (case c of
        JObj cd \<Rightarrow>
          if \<not> should_include_node cd include_invisible then None
          else (case dget cd ''id'' of
                  JStr cid \<Rightarrow> if cid \<noteq> [] then Some cid else None
                | _ \<Rightarrow> None)
      | _ \<Rightarrow> None)"

definition child_ids_of :: "bool \<Rightarrow> json \<Rightarrow> string list" where
  "child_ids_of include_invisible children_raw =
     (case children_raw of
        JArr cs \<Rightarrow> List.map_filter (child_id_of include_invisible) cs
      | _ \<Rightarrow> [])"

definition make_rec :: "bool \<Rightarrow> int \<Rightarrow> pydict \<Rightarrow> string \<Rightarrow> string option \<Rightarrow> nat \<Rightarrow> node_rec" where
  "make_rec include_invisible max_text_len node nid parent_id d =
     \<lparr> rec_id = nid,
       rec_name = py_str (dget_default node ''name'' (JStr '''')),
       rec_type = py_str (dget_default node ''type'' (JStr '''')),
       parentId = parent_id,
       depth = d,
       childIds = child_ids_of include_invisible (dget node ''children''),
       facts = node_facts node max_text_len \<rparr>"

lemma size_dict_entry: "map_of d k = Some v \<Longrightarrow> size v < size (JObj d)"
  by (induction d) (auto split: if_splits)

lemma size_dget_child:
  assumes "dget d k = JArr cs" and "c \<in> set cs"
  shows "size c < size (JObj d)"
proof -
  from assms(1) have "map_of d k = Some (JArr cs)"
    by (auto simp: dget_def split: option.splits)
  then have "size (JArr cs) < size (JObj d)"
    by (rule size_dict_entry)
  moreover from assms(2) have "size c < size (JArr cs)"
    by (induction cs) auto
  ultimately show ?thesis by simp
qed

text \<open>
  \<^verbatim>\<open>visit(node, parent_id, depth)\<close>, the closure inside \<^verbatim>\<open>index_tree\<close>; the dict
  \<^verbatim>\<open>nodes\<close> it fills is passed in and returned. It returns at once for a node
  that is not included, has no non-empty string id, or whose id is already in
  \<^verbatim>\<open>nodes\<close> (the first record is kept); none of these returns prints anything.
  The code only calls it on dicts; on any other value the model leaves the map as
  it is.
\<close>

function (sequential) visit ::
  "bool \<Rightarrow> int \<Rightarrow> json \<Rightarrow> string option \<Rightarrow> nat \<Rightarrow> node_map \<Rightarrow> node_map" where
  "visit include_invisible max_text_len (JObj node) parent_id d nodes =
     (if \<not> should_include_node node include_invisible then nodes
      else if \<not> nonempty_str (dget node ''id'') then nodes
      else if has_key nodes (py_str (dget node ''id'')) then nodes
      else
        (case dget node ''children'' of
           JArr cs \<Rightarrow>
             fold (\<lambda>c ns. if is_dict c
                          then visit include_invisible max_text_len c
                                 (Some (py_str (dget node ''id''))) (d + 1) ns
                          else ns)
                  cs
                  (dset nodes (py_str (dget node ''id''))
                     (make_rec include_invisible max_text_len node (py_str (dget node ''id'')) parent_id d))
         | _ \<Rightarrow>
             dset nodes (py_str (dget node ''id''))
               (make_rec include_invisible max_text_len node (py_str (dget node ''id'')) parent_id d)))"
| "visit include_invisible max_text_len v parent_id d nodes = nodes"
  by pat_completeness auto
termination
  by (relation "measure (\<lambda>(i, m, v, p, d, ns). size v)") (auto dest: size_dget_child)

datatype failure =
    RootNotObject
  | RootMissingId
  | UnsupportedVersion
  | UnsupportedPatchShape
  | CorruptNodeRecord

text \<open>
  \<^verbatim>\<open>index_tree\<close>: \<^verbatim>\<open>ValueError\<close> when the root has no non-empty string id, else
  the root id and the node map.
\<close>

definition index_tree :: "pydict \<Rightarrow> bool \<Rightarrow> int \<Rightarrow> failure + (string \<times> node_map)" where
  "index_tree root_node include_invisible max_text_len =
     (if \<not> nonempty_str (dget root_node ''id'') then Inl RootMissingId
      else Inr (py_str (dget root_node ''id''),
                visit include_invisible max_text_len (JObj root_node) None 0 []))"

text \<open>
  \<^verbatim>\<open>bfs_order\<close>: the \<^verbatim>\<open>while q:\<close> loop with its queue, its \<^verbatim>\<open>seen\<close> set and the
  order built so far.
\<close>

function bfs_loop :: "node_map \<Rightarrow> string list \<Rightarrow> string set \<Rightarrow> string list \<Rightarrow> string list" where
  "bfs_loop nodes [] seen order = order"
| "bfs_loop nodes (nid # q) seen order =
     (if nid \<in> seen then bfs_loop nodes q seen order
      else (case map_of nodes nid of
              None \<Rightarrow> bfs_loop nodes q (insert nid seen) order
            | Some r \<Rightarrow> bfs_loop nodes (q @ childIds r) (insert nid seen) (order @ [nid])))"
  by pat_completeness auto
termination
proof (relation "measures [\<lambda>(nodes, q, seen, order). card (fst ` set nodes - seen),
                           \<lambda>(nodes, q, seen, order). length q]", goal_cases)
  case 1
  show ?case by simp
next
  case (2 nodes nid q seen order)
  then show ?case by simp
next
  case (3 nodes nid q seen order)
  then have "nid \<notin> fst ` set nodes"
    by (simp add: map_of_eq_None_iff)
  then have "fst ` set nodes - insert nid seen = fst ` set nodes - seen"
    by auto
  then show ?case by simp
next
  case (4 nodes nid q seen order r)
  then have "nid \<in> fst ` set nodes - seen"
    by (auto dest: map_of_SomeD intro: rev_image_eqI)
  moreover have "finite (fst ` set nodes - seen)"
    by simp
  ultimately have "card (fst ` set nodes - seen - {nid}) < card (fst ` set nodes - seen)"
    by (rule card_Diff1_less[rotated])
  moreover have "fst ` set nodes - insert nid seen = fst ` set nodes - seen - {nid}"
    by auto
  ultimately show ?case by simp
qed

definition bfs_order :: "node_map \<Rightarrow> string \<Rightarrow> string list" where
  "bfs_order nodes root_id = bfs_loop nodes [root_id] {} []"

section \<open>The persisted state and the commands that read and write it\<close>

text \<open>
  The state document \<^verbatim>\<open>{version, uiSystem, rootId, nodes, bfs, decisions}\<close>. The
  Decision Store \<^verbatim>\<open>decisions\<close> is a dict from node id to the decision object.
  Reading and writing the file is not modelled: a command takes the document that
  \<^verbatim>\<open>json.load\<close> returned and gives back the document it saved, if it saved one.
\<close>

record state =
  version :: int
  uiSystem :: string
  rootId :: string
  nodes :: node_map
  bfs :: "string list"
  decisions :: pydict

definition STATE_VERSION :: int where
  "STATE_VERSION = 1"

text \<open>What a command writes to stderr: one \<^verbatim>\<open>error:\<close> or \<^verbatim>\<open>warning:\<close> line each.\<close>

datatype diagnostic =
    ErrorLine failure
  | UnknownPatchId string
  | DecisionNotObject string

text \<open>
  The outcome of a command: its exit status, its stderr lines, the state it saved
  (if any) and the JSON result it printed (if any).
\<close>

record 'out outcome =
  exit_code :: int
  stderr :: "diagnostic list"
  saved :: "state option"
  printed :: "'out option"

definition failed :: "failure \<Rightarrow> 'out outcome" where
  "failed f = \<lparr> exit_code = 2, stderr = [ErrorLine f], saved = None, printed = None \<rparr>"

definition load_state :: "state \<Rightarrow> failure + state" where
  "load_state st = (if version st \<noteq> STATE_VERSION then Inl UnsupportedVersion else Inr st)"

definition select_root_node :: "json \<Rightarrow> failure + pydict" where
  "select_root_node payload =
     (case payload of
        JObj d \<Rightarrow> (if is_dict (dget d ''document'') then Inr (dict_of (dget d ''document'')) else Inr d)
      | _ \<Rightarrow> Inl RootNotObject)"

text \<open>
  \<^verbatim>\<open>cmd_init\<close>: index the input and save a fresh state with an empty Decision
  Store. It prints the root id and the two counts. Nothing is written to stderr
  unless the command fails.
\<close>

definition cmd_init :: "json \<Rightarrow> string \<Rightarrow> bool \<Rightarrow> int \<Rightarrow> (string \<times> nat \<times> nat) outcome" where
  "cmd_init payload ui_system include_invisible max_text_len =
     (case select_root_node payload of
        Inl f \<Rightarrow> failed f
      | Inr root_node \<Rightarrow>
          (case index_tree root_node include_invisible max_text_len of
             Inl f \<Rightarrow> failed f
           | Inr (root_id, ns) \<Rightarrow>
               \<lparr> exit_code = 0, stderr = [],
                 saved = Some \<lparr> version = STATE_VERSION, uiSystem = ui_system, rootId = root_id,
                                nodes = ns, bfs = bfs_order ns root_id, decisions = [] \<rparr>,
                 printed = Some (root_id, length ns, length (bfs_order ns root_id)) \<rparr>))"

text \<open>
  \<^verbatim>\<open>_next_node_id\<close>: the first id of \<^verbatim>\<open>bfs\<close> that is a non-empty string and has no
  entry in \<^verbatim>\<open>decisions\<close>; \<^verbatim>\<open>None\<close> when there is none.
\<close>

definition next_node_id :: "state \<Rightarrow> string option" where
  "next_node_id st = find (\<lambda>nid. nid \<noteq> [] \<and> \<not> has_key (decisions st) nid) (bfs st)"

section \<open>Constraint hints\<close>

text \<open>
  \<^verbatim>\<open>add_pin\<close>: an integral value is printed as an integer, any other value with
  Python's \<^verbatim>\<open>repr\<close> of a float, which the model takes as the parameter
  \<open>float_repr\<close>.
\<close>

definition add_pin :: "(rat \<Rightarrow> string) \<Rightarrow> string \<Rightarrow> rat \<Rightarrow> string" where
  "add_pin float_repr key v =
     key @ ''='' @ (if v = of_int \<lfloor>v\<rfloor> then show_int \<lfloor>v\<rfloor> else float_repr v)"

definition horizontal_anchors :: "(rat \<Rightarrow> string) \<Rightarrow> string \<Rightarrow> rat \<Rightarrow> rat \<Rightarrow> rat \<Rightarrow> string list" where
  "horizontal_anchors fr horiz x w pw =
     (if horiz = ''MIN'' then [add_pin fr ''L'' x]
      else if horiz = ''MAX'' then [add_pin fr ''R'' (- (pw - (x + w)))]
      else if horiz = ''CENTER'' then [add_pin fr ''CX'' ((x + w / 2) - pw / 2)]
      else if horiz = ''STRETCH'' then [add_pin fr ''L'' x, add_pin fr ''R'' (- (pw - (x + w)))]
      else if horiz = ''SCALE'' then [add_pin fr ''L'' x]
      else [])"

definition vertical_anchors :: "(rat \<Rightarrow> string) \<Rightarrow> string \<Rightarrow> rat \<Rightarrow> rat \<Rightarrow> rat \<Rightarrow> string list" where
  "vertical_anchors fr vert y h ph =
     (if vert = ''MIN'' then [add_pin fr ''T'' y]
      else if vert = ''MAX'' then [add_pin fr ''B'' (- (ph - (y + h)))]
      else if vert = ''CENTER'' then [add_pin fr ''CY'' ((y + h / 2) - ph / 2)]
      else if vert = ''STRETCH'' then [add_pin fr ''T'' y, add_pin fr ''B'' (- (ph - (y + h)))]
      else if vert = ''SCALE'' then [add_pin fr ''T'' y]
      else [])"

definition size_pins :: "(rat \<Rightarrow> string) \<Rightarrow> string \<Rightarrow> string \<Rightarrow> rat \<Rightarrow> rat \<Rightarrow> string list" where
  "size_pins fr sizing_h sizing_v w h =
     (if sizing_h = ''FIXED'' \<or> sizing_h = '''' then [add_pin fr ''W'' w] else [])
     @ (if sizing_v = ''FIXED'' \<or> sizing_v = '''' then [add_pin fr ''H'' h] else [])"

text \<open>The last loop: a part whose key (the text before its first \<^verbatim>\<open>=\<close>) was seen is dropped.\<close>

fun dedupe_pins :: "string list \<Rightarrow> string set \<Rightarrow> string list" where
  "dedupe_pins [] seen_keys = []"
| "dedupe_pins (part # ps) seen_keys =
     (if takeWhile (\<lambda>c. c \<noteq> CHR ''='') part \<in> seen_keys then dedupe_pins ps seen_keys
      else part # dedupe_pins ps (insert (takeWhile (\<lambda>c. c \<noteq> CHR ''='') part) seen_keys))"

text \<open>
  The parent is an auto-layout container (\<^verbatim>\<open>layoutMode\<close> \<^verbatim>\<open>HORIZONTAL\<close> or
  \<^verbatim>\<open>VERTICAL\<close>) and the child does not opt into \<^verbatim>\<open>ABSOLUTE\<close> positioning.
\<close>

definition driven_by_auto_layout :: "json \<Rightarrow> pydict \<Rightarrow> bool" where
  "driven_by_auto_layout parent_layout layout =
     (is_dict parent_layout
      \<and> upper (py_str (dget_default (dict_of parent_layout) ''layoutMode'' (JStr '''')))
            \<in> {''HORIZONTAL'', ''VERTICAL''}
      \<and> upper (py_str (dget_default layout ''layoutPositioning'' (JStr ''''))) \<noteq> ''ABSOLUTE'')"

definition pins_of :: "(rat \<Rightarrow> string) \<Rightarrow> pydict \<Rightarrow> pydict \<Rightarrow> pydict \<Rightarrow> pydict \<Rightarrow> string list" where
  "pins_of fr layout constraints frame pframe =
     horizontal_anchors fr (upper (py_str (dget_default constraints ''horizontal'' (JStr ''''))))
        (float_of (dget frame ''x'')) (float_of (dget frame ''width'')) (float_of (dget pframe ''width''))
     @ vertical_anchors fr (upper (py_str (dget_default constraints ''vertical'' (JStr ''''))))
        (float_of (dget frame ''y'')) (float_of (dget frame ''height'')) (float_of (dget pframe ''height''))
     @ size_pins fr (upper (py_str (dget_default layout ''layoutSizingHorizontal'' (JStr ''''))))
        (upper (py_str (dget_default layout ''layoutSizingVertical'' (JStr ''''))))
        (float_of (dget frame ''width'')) (float_of (dget frame ''height''))"

text \<open>
  \<^verbatim>\<open>compute_constraint_hints(nodes, node_id, parent_id)\<close>: \<^verbatim>\<open>None\<close> at each of the
  early returns of the source, else the string \<^verbatim>\<open>pins=...\<close>.
\<close>

definition compute_constraint_hints ::
  "(rat \<Rightarrow> string) \<Rightarrow> node_map \<Rightarrow> string \<Rightarrow> string option \<Rightarrow> string option" where
  "compute_constraint_hints fr ns node_id parent_id =
     (case parent_id of
        None \<Rightarrow> None
      | Some pid \<Rightarrow>
          if pid = [] then None
          else (case map_of ns node_id of
                  None \<Rightarrow> None
                | Some n \<Rightarrow>
                   (case map_of ns pid of
                      None \<Rightarrow> None
                    | Some p \<Rightarrow>
                       (let layout = dget_default (facts n) ''layout'' (JObj []);
                            frame = dget_default (facts n) ''frame'' (JObj []);
                            pframe = dget_default (facts p) ''frame'' (JObj [])
                        in if \<not> is_dict layout \<or> \<not> is_dict frame \<or> \<not> is_dict pframe then None
                           else if driven_by_auto_layout (dget_default (facts p) ''layout'' (JObj []))
                                     (dict_of layout) then None
                           else if \<not> is_dict (dget (dict_of layout) ''constraints'') then None
                           else if \<not> (is_number (dget (dict_of frame) ''x'')
                                       \<and> is_number (dget (dict_of frame) ''y'')
                                       \<and> is_number (dget (dict_of frame) ''width'')
                                       \<and> is_number (dget (dict_of frame) ''height'')
                                       \<and> is_number (dget (dict_of pframe) ''width'')
                                       \<and> is_number (dget (dict_of pframe) ''height'')) then None
                           else (let pins = pins_of fr (dict_of layout)
                                              (dict_of (dget (dict_of layout) ''constraints''))
                                              (dict_of frame) (dict_of pframe)
                                 in if pins = [] then None
                                    else Some (''pins='' @ join '':'' (dedupe_pins pins {})))))))"

section \<open>The traversal cursor\<close>

text \<open>
  What \<^verbatim>\<open>cmd_next\<close> prints: \<^verbatim>\<open>{"done": true}\<close>, or the bundle for the next
  undecided node. Of the bundle the model keeps the node id, the parent's decision
  and the pins candidate; the skeletons, requirements, facts and the other hints
  are left out.
\<close>

datatype next_output =
    Done
  | NextNode string json "string option"

definition cmd_next :: "(rat \<Rightarrow> string) \<Rightarrow> state \<Rightarrow> next_output outcome" where
  "cmd_next fr st0 =
     (case load_state st0 of
        Inl f \<Rightarrow> failed f
      | Inr st \<Rightarrow>
          (case next_node_id st of
             None \<Rightarrow> \<lparr> exit_code = 0, stderr = [], saved = None, printed = Some Done \<rparr>
           | Some nid \<Rightarrow>
               (case map_of (nodes st) nid of
                  None \<Rightarrow> failed CorruptNodeRecord
                | Some n \<Rightarrow>
                    \<lparr> exit_code = 0, stderr = [], saved = None,
                      printed = Some (NextNode nid
                                  (case parentId n of None \<Rightarrow> JNull | Some pid \<Rightarrow> dget (decisions st) pid)
                                  (compute_constraint_hints fr (nodes st) nid (parentId n))) \<rparr>)))"

section \<open>The Decision Store\<close>

text \<open>
  \<^verbatim>\<open>normalize_patch_payload\<close>: the three accepted shapes, each turned into the
  list of \<^verbatim>\<open>(id, decision)\<close> pairs; \<^verbatim>\<open>ValueError\<close> for any other payload.
\<close>

definition patch_of_item :: "json \<Rightarrow> (string \<times> json) option" where
  "patch_of_item item =
     (case item of
        JObj d \<Rightarrow>
          if nonempty_str (dget d ''id'')
          then Some (py_str (dget d ''id''), JObj (AList.delete ''id'' d))
          else None
      | _ \<Rightarrow> None)"

definition patch_of_entry :: "string \<times> json \<Rightarrow> (string \<times> json) option" where
  "patch_of_entry e = (if fst e = [] \<or> \<not> is_dict (snd e) then None else Some e)"

definition normalize_patch_payload :: "json \<Rightarrow> failure + (string \<times> json) list" where
  "normalize_patch_payload payload =
     (case payload of
        JArr items \<Rightarrow> Inr (List.map_filter patch_of_item items)
      | JObj d \<Rightarrow>
          if has_key d ''decisions'' \<and> is_dict (dget d ''decisions'')
          then Inr (List.map_filter patch_of_entry (dict_of (dget d ''decisions'')))
          else (case patch_of_item (JObj d) of
                  Some p \<Rightarrow> Inr [p]
                | None \<Rightarrow> Inl UnsupportedPatchShape)
      | _ \<Rightarrow> Inl UnsupportedPatchShape)"

text \<open>
  One round of the loop of \<^verbatim>\<open>cmd_apply\<close> over the store, the list \<^verbatim>\<open>applied\<close> and
  the warnings printed so far: a patch for an id that is not in \<^verbatim>\<open>nodes\<close>, or whose
  decision is not a dict, is skipped with a warning; any other patch overwrites
  the entry of its id.
\<close>

definition apply_patch ::
  "node_map \<Rightarrow> string \<times> json \<Rightarrow> pydict \<times> string list \<times> diagnostic list
     \<Rightarrow> pydict \<times> string list \<times> diagnostic list" where
  "apply_patch ns p acc =
     (case acc of
        (decs, applied, warnings) \<Rightarrow>
          if \<not> has_key ns (fst p) then (decs, applied, warnings @ [UnknownPatchId (fst p)])
          else if \<not> is_dict (snd p) then (decs, applied, warnings @ [DecisionNotObject (fst p)])
          else (dset decs (fst p) (snd p), applied @ [fst p], warnings))"

definition apply_patches ::
  "node_map \<Rightarrow> (string \<times> json) list \<Rightarrow> pydict \<Rightarrow> pydict \<times> string list \<times> diagnostic list" where
  "apply_patches ns patches decs = fold (apply_patch ns) patches (decs, [], [])"

text \<open>
  \<^verbatim>\<open>cmd_apply\<close>: the state is saved once, after the whole batch; the ids that were
  applied are printed.
\<close>

definition cmd_apply :: "state \<Rightarrow> json \<Rightarrow> (string list) outcome" where
  "cmd_apply st0 patch_payload =
     (case load_state st0 of
        Inl f \<Rightarrow> failed f
      | Inr st \<Rightarrow>
          (case normalize_patch_payload patch_payload of
             Inl f \<Rightarrow> failed f
           | Inr patches \<Rightarrow>
               (case apply_patches (nodes st) patches (decisions st) of
                  (decs, applied, warnings) \<Rightarrow>
                    \<lparr> exit_code = 0, stderr = warnings,
                      saved = Some (st\<lparr>decisions := decs\<rparr>),
                      printed = Some applied \<rparr>)))"

section \<open>Child absorption on the export tree\<close>

text \<open>
  An export node is the dict \<^verbatim>\<open>{source, <the decision's keys>, children}\<close> that
  \<^verbatim>\<open>build_export_tree\<close> returns. \<^verbatim>\<open>absorb_children_in_export_tree\<close> rewrites the
  tree in place; the model returns the rewritten tree. The two agree on a tree
  whose dicts are not shared between nodes, which is what the exporter builds
  from node ids that each occur once.
\<close>

text \<open>
  \<^verbatim>\<open>get_component_base_from_spec\<close> (and \<^verbatim>\<open>base_component_from_decision\<close>, which has
  the same body): the stripped \<^verbatim>\<open>component.base\<close>, if it is a non-blank string.
\<close>

definition get_component_base_from_spec :: "json \<Rightarrow> string option" where
  "get_component_base_from_spec spec_node =
     (case spec_node of
        JObj d \<Rightarrow>
          (case dget d ''component'' of
             JObj component \<Rightarrow>
               if nonblank_str (dget component ''base'') then Some (strip (py_str (dget component ''base'')))
               else None
           | _ \<Rightarrow> None)
      | _ \<Rightarrow> None)"

definition base_component_from_decision :: "json \<Rightarrow> string option" where
  "base_component_from_decision decision = get_component_base_from_spec decision"

text \<open>\<^verbatim>\<open>get_component_base_from_spec(c) or ""\<close>.\<close>

definition base_or_empty :: "json \<Rightarrow> string" where
  "base_or_empty c = (case get_component_base_from_spec c of None \<Rightarrow> [] | Some b \<Rightarrow> b)"

definition child_source_id :: "json \<Rightarrow> string option" where
  "child_source_id child =
     (case dget (dict_of child) ''source'' of
        JObj src \<Rightarrow> if nonempty_str (dget src ''id'') then Some (py_str (dget src ''id'')) else None
      | _ \<Rightarrow> None)"

definition child_properties :: "json \<Rightarrow> pydict" where
  "child_properties child =
     (case dget (dict_of child) ''properties'' of JObj p \<Rightarrow> p | _ \<Rightarrow> [])"

fun is_str :: "json \<Rightarrow> bool" where
  "is_str (JStr s) = True"
| "is_str v = False"

text \<open>The index of the first element that satisfies \<open>P\<close>, if there is one.\<close>

fun first_index :: "('a \<Rightarrow> bool) \<Rightarrow> 'a list \<Rightarrow> nat option" where
  "first_index P [] = None"
| "first_index P (x # xs) = (if P x then Some 0 else map_option Suc (first_index P xs))"

text \<open>\<^verbatim>\<open>props[key] = value\<close> followed by \<^verbatim>\<open>props[from_key] = cid\<close> when the child has a source id.\<close>

definition set_with_source :: "pydict \<Rightarrow> string \<Rightarrow> json \<Rightarrow> string \<Rightarrow> json \<Rightarrow> pydict" where
  "set_with_source props key v from_key child =
     (case child_source_id child of
        None \<Rightarrow> dset props key v
      | Some cid \<Rightarrow> dset (dset props key v) from_key (JStr cid))"

text \<open>
  The \<^verbatim>\<open>if label_i is not None:\<close> block of the \<^verbatim>\<open>UIButton\<close> branch: the three
  copies are tested one by one; the child is marked for removal whatever was
  copied.
\<close>

definition absorb_label :: "pydict \<Rightarrow> json \<Rightarrow> pydict" where
  "absorb_label props c =
     (let cp = child_properties c;
          p1 = (if \<not> has_key props ''title'' \<and> is_str (dget cp ''text'')
                then set_with_source props ''title'' (dget cp ''text'') ''titleFrom'' c else props);
          p2 = (if \<not> has_key p1 ''titleColor'' \<and> is_dict (dget cp ''textColor'')
                then dset p1 ''titleColor'' (dget cp ''textColor'') else p1)
      in if \<not> has_key p2 ''titleFont'' \<and> is_dict (dget cp ''font'')
         then dset p2 ''titleFont'' (dget cp ''font'') else p2)"

definition absorb_button_image :: "pydict \<Rightarrow> json \<Rightarrow> pydict" where
  "absorb_button_image props c =
     (let cp = child_properties c;
          p1 = (if \<not> has_key props ''image'' \<and> is_dict (dget cp ''image'')
                then set_with_source props ''image'' (dget cp ''image'') ''imageFrom'' c else props)
      in if \<not> has_key p1 ''imageContentMode'' \<and> is_str (dget cp ''contentMode'')
         then dset p1 ''imageContentMode'' (dget cp ''contentMode'') else p1)"

text \<open>The SwiftUI \<^verbatim>\<open>Button\<close> branch copies the title and the image only.\<close>

definition absorb_text :: "pydict \<Rightarrow> json \<Rightarrow> pydict" where
  "absorb_text props c =
     (if \<not> has_key props ''title'' \<and> is_str (dget (child_properties c) ''text'')
      then set_with_source props ''title'' (dget (child_properties c) ''text'') ''titleFrom'' c
      else props)"

definition absorb_plain_image :: "pydict \<Rightarrow> json \<Rightarrow> pydict" where
  "absorb_plain_image props c =
     (if \<not> has_key props ''image'' \<and> is_dict (dget (child_properties c) ''image'')
      then set_with_source props ''image'' (dget (child_properties c) ''image'') ''imageFrom'' c
      else props)"

text \<open>
  A button branch (\<^verbatim>\<open>UIButton\<close> with \<^verbatim>\<open>UILabel\<close>/\<^verbatim>\<open>UIImageView\<close> children, or
  \<^verbatim>\<open>Button\<close> with \<^verbatim>\<open>Text\<close>/\<^verbatim>\<open>Image\<close> children): the new properties and the set
  \<^verbatim>\<open>remove_idx\<close>.
\<close>

definition button_absorb ::
  "string \<Rightarrow> string \<Rightarrow> (pydict \<Rightarrow> json \<Rightarrow> pydict) \<Rightarrow> (pydict \<Rightarrow> json \<Rightarrow> pydict)
     \<Rightarrow> pydict \<Rightarrow> json list \<Rightarrow> pydict \<times> nat set" where
  "button_absorb label_base image_base on_label on_image props children =
     (let label_i = first_index (\<lambda>c. base_or_empty c = label_base) children;
          image_i = first_index (\<lambda>c. base_or_empty c = image_base) children;
          p1 = (case label_i of None \<Rightarrow> props | Some i \<Rightarrow> on_label props (children ! i));
          r1 = (case label_i of None \<Rightarrow> {} | Some i \<Rightarrow> {i});
          p2 = (case image_i of None \<Rightarrow> p1 | Some i \<Rightarrow> on_image p1 (children ! i));
          r2 = (case image_i of None \<Rightarrow> r1 | Some i \<Rightarrow> insert i r1)
      in (p2, r2))"

text \<open>
  An image branch (\<^verbatim>\<open>UIImageView\<close> or \<^verbatim>\<open>Image\<close>): \<open>None\<close> is the early
  \<^verbatim>\<open>return\<close> taken when the node already has an image; else the first child of
  the same class that holds an image dict is absorbed.
\<close>

definition image_absorb :: "string \<Rightarrow> pydict \<Rightarrow> json list \<Rightarrow> (pydict \<times> nat set) option" where
  "image_absorb image_base props children =
     (if is_dict (dget props ''image'') then None
      else (case first_index (\<lambda>c. base_or_empty c = image_base
                                   \<and> is_dict (dget (child_properties c) ''image'')) children of
              None \<Rightarrow> Some (props, {})
            | Some i \<Rightarrow>
                Some (set_with_source props ''image'' (dget (child_properties (children ! i)) ''image'')
                        ''imageFrom'' (children ! i), {i})))"

text \<open>\<^verbatim>\<open>[c for i, c in enumerate(children) if i not in remove_idx]\<close>.\<close>

definition remove_indices :: "nat set \<Rightarrow> 'a list \<Rightarrow> 'a list" where
  "remove_indices remove_idx xs = map snd (filter (\<lambda>ic. fst ic \<notin> remove_idx) (enumerate 0 xs))"

text \<open>
  The two blocks \<^verbatim>\<open>if ui_system == "UIKit":\<close> and \<^verbatim>\<open>if ui_system == "SwiftUI":\<close>:
  the new properties and the set \<^verbatim>\<open>remove_idx\<close>, or \<open>None\<close> for the early
  \<^verbatim>\<open>return\<close> of an image branch. A base that no branch names absorbs nothing.
\<close>

definition absorb_by_base ::
  "string \<Rightarrow> string \<Rightarrow> pydict \<Rightarrow> json list \<Rightarrow> (pydict \<times> nat set) option" where
  "absorb_by_base ui_system base props children =
     (if ui_system = ''UIKit'' then
        (if base = ''UIButton''
         then Some (button_absorb ''UILabel'' ''UIImageView''
                      absorb_label absorb_button_image props children)
         else if base = ''UIImageView''
         then image_absorb ''UIImageView'' props children
         else Some (props, {}))
      else if ui_system = ''SwiftUI'' then
        (if base = ''Button''
         then Some (button_absorb ''Text'' ''Image''
                      absorb_text absorb_plain_image props children)
         else if base = ''Image''
         then image_absorb ''Image'' props children
         else Some (props, {}))
      else Some (props, {}))"

text \<open>
  The part of \<^verbatim>\<open>absorb_children_in_export_tree\<close> that follows the recursion into
  the children: what the node does with its own, already rewritten, children.
  \<^verbatim>\<open>get_properties_dict\<close> gives the node an empty \<^verbatim>\<open>properties\<close> dict when it has
  none.
\<close>

definition absorb_own_children :: "string \<Rightarrow> pydict \<Rightarrow> json" where
  "absorb_own_children ui_system node =
     (let base = base_or_empty (JObj node)
      in if base = [] then JObj node
         else (case dget node ''children'' of
                 JArr children \<Rightarrow>
                   if children = [] then JObj node
                   else
                     (let props = (case dget node ''properties'' of JObj p \<Rightarrow> p | _ \<Rightarrow> []);
                          node1 = (if is_dict (dget node ''properties'') then node
                                   else dset node ''properties'' (JObj []))
                      in case absorb_by_base ui_system base props children of
                           None \<Rightarrow> JObj node1
                         | Some (props', remove_idx) \<Rightarrow>
                             (let node2 = dset node1 ''properties'' (JObj props')
                              in if remove_idx \<noteq> {}
                                 then JObj (dset node2 ''children'' (JArr (remove_indices remove_idx children)))
                                 else JObj node2))
               | _ \<Rightarrow> JObj node))"

text \<open>
  \<^verbatim>\<open>absorb_children_in_export_tree(spec_node, ui_system=...)\<close>: the children are
  rewritten first, then the node absorbs from them. A value that is not a dict
  is left as it is.
\<close>

function (sequential) absorb_children_in_export_tree :: "string \<Rightarrow> json \<Rightarrow> json" where
  "absorb_children_in_export_tree ui_system (JObj node) =
     (case dget node ''children'' of
        JArr cs \<Rightarrow>
          absorb_own_children ui_system
            (dset node ''children'' (JArr (map (absorb_children_in_export_tree ui_system) cs)))
      | _ \<Rightarrow> absorb_own_children ui_system node)"
| "absorb_children_in_export_tree ui_system v = v"
  by pat_completeness auto
termination
  by (relation "measure (\<lambda>(u, v). size v)") (auto dest: size_dget_child)

section \<open>Validation\<close>

text \<open>
  One entry of the \<^verbatim>\<open>errors\<close> or of the \<^verbatim>\<open>warnings\<close> list of \<^verbatim>\<open>cmd_validate\<close>: the
  dict \<^verbatim>\<open>{nodeId, error | warning, detail?}\<close>.
\<close>

record finding =
  nodeId :: string
  message :: string
  detail :: "json option"

definition finding_of :: "string \<Rightarrow> string \<Rightarrow> json option \<Rightarrow> finding" where
  "finding_of nid msg det = \<lparr> nodeId = nid, message = msg, detail = det \<rparr>"

text \<open>\<^verbatim>\<open>s.split(sep)\<close> for a one-character separator.\<close>

fun split_on :: "char \<Rightarrow> string \<Rightarrow> string list" where
  "split_on sep [] = [[]]"
| "split_on sep (c # cs) =
     (if c = sep then [] # split_on sep cs
      else (case split_on sep cs of
              [] \<Rightarrow> [[c]]
            | p # ps \<Rightarrow> (c # p) # ps))"

definition PINS_ALLOWED_KEYS :: "string set" where
  "PINS_ALLOWED_KEYS = {''L'', ''R'', ''T'', ''B'', ''CX'', ''CY'', ''W'', ''H''}"

text \<open>
  The error of one part of a pins body, if it has one. \<open>float_ok\<close> stands for
  "Python's \<^verbatim>\<open>float(raw_val)\<close> does not raise"; it is a parameter of the model.
\<close>

definition pins_part_error :: "(string \<Rightarrow> bool) \<Rightarrow> string \<Rightarrow> string option" where
  "pins_part_error float_ok part0 =
     (let part = strip part0
      in if part = [] then None
         else if CHR ''='' \<notin> set part then Some (''pins_bad_part:'' @ part)
         else
           (let key = upper (strip (takeWhile (\<lambda>c. c \<noteq> CHR ''='') part));
                raw_val = strip (tl (dropWhile (\<lambda>c. c \<noteq> CHR ''='') part))
            in if key \<notin> PINS_ALLOWED_KEYS then Some (''pins_unknown_key:'' @ key)
               else if \<not> float_ok raw_val then Some (''pins_bad_value:'' @ key @ ''='' @ raw_val)
               else None))"

text \<open>
  The list of errors that \<^verbatim>\<open>parse_pins\<close> returns (its second result; the parsed
  dict, which \<^verbatim>\<open>cmd_validate\<close> does not read, is left out). With no part in
  error, \<^verbatim>\<open>pins_no_pairs\<close> is reported when no part held a pair.
\<close>

definition parse_pins_errors :: "(string \<Rightarrow> bool) \<Rightarrow> json \<Rightarrow> string list" where
  "parse_pins_errors float_ok pins =
     (case pins of
        JStr raw \<Rightarrow>
          (let s = strip raw
           in if s = [] then [''pins_not_a_string'']
              else if take 5 s \<noteq> ''pins='' then [''pins_missing_prefix'']
              else
                (let body = strip (drop 5 s);
                     parts = split_on CHR '':'' body;
                     errs = List.map_filter (pins_part_error float_ok) parts
                 in if body = [] then [''pins_empty'']
                    else if errs \<noteq> [] then errs
                    else if filter (\<lambda>p. strip p \<noteq> []) parts = [] then [''pins_no_pairs'']
                    else []))
      | _ \<Rightarrow> [''pins_not_a_string''])"

definition LAYOUT_KINDS :: "string list" where
  "LAYOUT_KINDS = [''root'', ''stack'', ''stackItem'', ''pins'', ''list'', ''scroll'']"

text \<open>The checks on a \<^verbatim>\<open>layout\<close> that is a dict: errors and warnings, in the order raised.\<close>

definition validate_layout :: "(string \<Rightarrow> bool) \<Rightarrow> string \<Rightarrow> pydict \<Rightarrow> finding list \<times> finding list" where
  "validate_layout float_ok nid layout =
     (let kind = dget layout ''kind'';
          pins = dget layout ''pins''
      in ((if kind \<noteq> JNull \<and> \<not> is_str kind then [finding_of nid ''layout_kind_not_string'' None] else [])
          @ (if pins \<noteq> JNull \<and> parse_pins_errors float_ok pins \<noteq> []
             then [finding_of nid ''invalid_pins_string''
                     (Some (JArr (map JStr (parse_pins_errors float_ok pins))))]
             else [])
          @ (if kind = JStr ''stack''
                \<and> dget layout ''axis'' \<noteq> JStr ''horizontal'' \<and> dget layout ''axis'' \<noteq> JStr ''vertical''
             then [finding_of nid ''stack_axis_missing_or_invalid'' None] else []),
          (if is_str kind \<and> py_str kind \<notin> set LAYOUT_KINDS
           then [finding_of nid ''layout_kind_unknown'' (Some kind)] else [])))"

text \<open>The cell sizing rules (UIKit) for a decision whose \<^verbatim>\<open>component.base\<close> is a string.\<close>

definition validate_cell :: "string \<Rightarrow> string \<Rightarrow> json \<Rightarrow> finding list" where
  "validate_cell nid base layout =
     (if strip base \<notin> {''UITableViewCell'', ''UICollectionViewCell''} then []
      else if \<not> is_dict layout then [finding_of nid ''cell_missing_layout'' None]
      else
        (let cs = dget (dict_of layout) ''cellSizing'';
             fs = dget (dict_of layout) ''fixedSize''
         in (if cs \<noteq> JStr ''selfSizing'' \<and> cs \<noteq> JStr ''fixed''
             then [finding_of nid ''cellSizing_missing_or_invalid'' None] else [])
            @ (if cs = JStr ''fixed''
                  \<and> (\<not> is_dict fs \<or> \<not> is_number (dget (dict_of fs) ''width'')
                       \<or> \<not> is_number (dget (dict_of fs) ''height''))
               then [finding_of nid ''fixed_cell_requires_fixedSize_width_height'' None] else [])))"

text \<open>
  One round of the first loop of \<^verbatim>\<open>cmd_validate\<close>: the errors and the warnings that
  the decision payload of one node raises. A node with no entry in the Decision
  Store raises the warning \<^verbatim>\<open>missing_decision\<close> and nothing else.
\<close>

definition validate_node ::
  "(string \<Rightarrow> bool) \<Rightarrow> string \<Rightarrow> pydict \<Rightarrow> string \<Rightarrow> finding list \<times> finding list" where
  "validate_node float_ok ui_system decs nid =
     (let dec = dget decs nid
      in if dec = JNull then ([], [finding_of nid ''missing_decision'' None])
         else if \<not> is_dict dec then ([finding_of nid ''decision_not_object'' None], [])
         else if \<not> is_dict (dget (dict_of dec) ''component'')
         then ([finding_of nid ''missing_component_object'' None], [])
         else
           (let base = dget (dict_of (dget (dict_of dec) ''component'')) ''base'';
                layout0 = dget (dict_of dec) ''layout'';
                layout = (if is_dict layout0 then layout0 else JNull);
                lay = (if is_dict layout then validate_layout float_ok nid (dict_of layout) else ([], []))
            in ((if \<not> nonblank_str base then [finding_of nid ''missing_component_base'' None] else [])
                @ (if layout0 \<noteq> JNull \<and> \<not> is_dict layout0
                   then [finding_of nid ''layout_not_object'' None] else [])
                @ fst lay
                @ (if ui_system = ''UIKit'' \<and> is_str base then validate_cell nid (py_str base) layout else []),
                snd lay)))"

text \<open>
  The checks of the second loop on one child \<^verbatim>\<open>cid\<close> of a parent whose decided
  base is \<^verbatim>\<open>parent_base\<close>.
\<close>

definition validate_child ::
  "string \<Rightarrow> pydict \<Rightarrow> string \<Rightarrow> string \<Rightarrow> string \<Rightarrow> finding list \<times> finding list" where
  "validate_child ui_system decs parent_id parent_base cid =
     (let cbase = base_component_from_decision (dget decs cid);
          must = (if parent_base = ''UICollectionView'' then ''UICollectionViewCell'' else ''UITableViewCell'')
      in if ui_system = ''UIKit'' then
           (if parent_base \<in> {''UICollectionView'', ''UITableView''} then
              (case cbase of
                 None \<Rightarrow>
                   ([], [finding_of cid ''child_missing_decision_under_list_container''
                           (Some (JObj [(''parent'', JStr parent_id), (''mustBe'', JStr must)]))])
               | Some b \<Rightarrow>
                   if b \<noteq> must
                   then ([finding_of cid ''child_component_must_be_cell''
                            (Some (JObj [(''parent'', JStr parent_id), (''mustBe'', JStr must),
                                         (''actual'', JStr b)]))], [])
                   else ([], []))
            else if parent_base = ''UIButton'' then
              (case cbase of
                 None \<Rightarrow> ([], [])
               | Some b \<Rightarrow>
                   if b \<notin> {''UILabel'', ''UIImageView''}
                   then ([], [finding_of cid ''unexpected_child_under_UIButton''
                                (Some (JObj [(''parent'', JStr parent_id), (''actual'', JStr b)]))])
                   else ([], []))
            else ([], []))
         else if ui_system = ''SwiftUI'' then
           (if parent_base = ''Button'' then
              (case cbase of
                 None \<Rightarrow> ([], [])
               | Some b \<Rightarrow>
                   if b \<notin> {''Text'', ''Image'', ''Label'', ''View''}
                   then ([], [finding_of cid ''unexpected_child_under_Button''
                                (Some (JObj [(''parent'', JStr parent_id), (''actual'', JStr b)]))])
                   else ([], []))
            else if parent_base = ''List'' then
              (case cbase of
                 None \<Rightarrow> ([], [])
               | Some b \<Rightarrow>
                   if b \<notin> {''View'', ''Text'', ''Image'', ''HStack'', ''VStack'', ''ZStack''}
                   then ([], [finding_of cid ''unexpected_child_under_List''
                                (Some (JObj [(''parent'', JStr parent_id), (''actual'', JStr b)]))])
                   else ([], []))
            else ([], []))
         else ([], []))"

text \<open>Findings of several rounds, errors with errors and warnings with warnings.\<close>

definition collect :: "(finding list \<times> finding list) list \<Rightarrow> finding list \<times> finding list" where
  "collect rs = (concat (map fst rs), concat (map snd rs))"

definition validate_parent :: "string \<Rightarrow> pydict \<Rightarrow> string \<times> node_rec \<Rightarrow> finding list \<times> finding list" where
  "validate_parent ui_system decs entry =
     collect (map (validate_child ui_system decs (fst entry)
                     (case base_component_from_decision (dget decs (fst entry)) of
                        None \<Rightarrow> [] | Some b \<Rightarrow> b))
                  (childIds (snd entry)))"

record report =
  ok :: bool
  errors :: "finding list"
  warnings :: "finding list"

text \<open>The two loops of \<^verbatim>\<open>cmd_validate\<close> over a loaded state.\<close>

definition validate_state :: "(string \<Rightarrow> bool) \<Rightarrow> state \<Rightarrow> finding list \<times> finding list" where
  "validate_state float_ok st =
     collect (map (validate_node float_ok (uiSystem st) (decisions st)) (map fst (nodes st))
              @ map (validate_parent (uiSystem st) (decisions st)) (nodes st))"

text \<open>
  \<^verbatim>\<open>cmd_validate\<close>: status 2 and no report when the state does not load; else the
  report \<^verbatim>\<open>{ok, errors, warnings}\<close> with \<^verbatim>\<open>ok = len(errors) == 0\<close>, and status
  \<^verbatim>\<open>0 if ok else 1\<close>.
\<close>

definition cmd_validate :: "(string \<Rightarrow> bool) \<Rightarrow> state \<Rightarrow> report outcome" where
  "cmd_validate float_ok st0 =
     (case load_state st0 of
        Inl f \<Rightarrow> failed f
      | Inr st \<Rightarrow>
          (let found = validate_state float_ok st;
               is_ok = (length (fst found) = 0)
           in \<lparr> exit_code = (if is_ok then 0 else 1), stderr = [], saved = None,
                printed = Some \<lparr> ok = is_ok, errors = fst found, warnings = snd found \<rparr> \<rparr>))"

section \<open>Vocabulary of the properties\<close>

text \<open>
  A patch is the list of \<^verbatim>\<open>(id, decision)\<close> pairs that \<^verbatim>\<open>normalize_patch_payload\<close>
  returns. The loop of \<^verbatim>\<open>cmd_apply\<close> accepts a pair when its id is an indexed node
  and its decision is a dict; \<open>patch_map\<close> is what a patch writes: for each id,
  the decision of the last accepted pair with that id.
\<close>

definition accepted :: "node_map \<Rightarrow> string \<times> json \<Rightarrow> bool" where
  "accepted ns p = (has_key ns (fst p) \<and> is_dict (snd p))"

definition patch_map :: "node_map \<Rightarrow> (string \<times> json) list \<Rightarrow> (string \<rightharpoonup> json)" where
  "patch_map ns ps = map_of (rev (filter (accepted ns) ps))"

text \<open>
  The warning that the loop of \<^verbatim>\<open>cmd_apply\<close> prints for a pair it skips:
  \<^verbatim>\<open>patch references unknown node id\<close> when the id is not indexed, else
  \<^verbatim>\<open>decision ... is not an object\<close>.
\<close>

definition warning_of :: "node_map \<Rightarrow> string \<times> json \<Rightarrow> diagnostic" where
  "warning_of ns p = (if \<not> has_key ns (fst p) then UnknownPatchId (fst p) else DecisionNotObject (fst p))"

text \<open>
  Two raw design trees used as concrete inputs. \<open>button_tree\<close> is a frame of
  width 300 holding a text node (\<^verbatim>\<open>x=20\<close>, \<^verbatim>\<open>width=100\<close>, horizontal constraint
  \<^verbatim>\<open>MAX\<close>) and a rectangle. \<open>dup_tree\<close> has the id \<^verbatim>\<open>0:4\<close> twice: once three
  levels down (under \<^verbatim>\<open>0:3\<close>, itself under \<^verbatim>\<open>0:2\<close>) and once as the second child
  of the root.
\<close>

definition button_tree :: json where
  "button_tree =
     JObj [(''id'', JStr ''1:1''), (''name'', JStr ''CTA Button''), (''type'', JStr ''FRAME''),
           (''x'', JNum 0), (''y'', JNum 0), (''width'', JNum 300), (''height'', JNum 48),
           (''children'', JArr [
              JObj [(''id'', JStr ''1:2''), (''name'', JStr ''Label''), (''type'', JStr ''TEXT''),
                    (''characters'', JStr ''Go''),
                    (''x'', JNum 20), (''y'', JNum 12), (''width'', JNum 100), (''height'', JNum 24),
                    (''constraints'', JObj [(''horizontal'', JStr ''MAX''), (''vertical'', JStr ''MIN'')])],
              JObj [(''id'', JStr ''1:3''), (''name'', JStr ''Icon''), (''type'', JStr ''RECTANGLE''),
                    (''x'', JNum 8), (''y'', JNum 12), (''width'', JNum 24), (''height'', JNum 24)]])]"

definition dup_tree :: json where
  "dup_tree =
     JObj [(''id'', JStr ''0:1''), (''name'', JStr ''Screen''), (''type'', JStr ''FRAME''),
           (''children'', JArr [
              JObj [(''id'', JStr ''0:2''), (''name'', JStr ''Header''), (''type'', JStr ''FRAME''),
                    (''children'', JArr [
                       JObj [(''id'', JStr ''0:3''), (''name'', JStr ''Row''), (''type'', JStr ''FRAME''),
                             (''children'', JArr [
                                JObj [(''id'', JStr ''0:4''), (''name'', JStr ''Badge''),
                                      (''type'', JStr ''FRAME'')]])]])],
              JObj [(''id'', JStr ''0:4''), (''name'', JStr ''Badge copy''), (''type'', JStr ''FRAME'')]])]"


text \<open>The states that \<^verbatim>\<open>cmd_init\<close> saves for the two trees (see \<open>cmd_init_button_tree\<close>).\<close>

definition button_state :: state where
  "button_state =
     \<lparr> version = 1, uiSystem = ''UIKit'', rootId = ''1:1'',
       nodes = visit False 200 button_tree None 0 [],
       bfs = [''1:1'', ''1:2'', ''1:3''], decisions = [] \<rparr>"

definition dup_state :: state where
  "dup_state =
     \<lparr> version = 1, uiSystem = ''UIKit'', rootId = ''0:1'',
       nodes = visit False 200 dup_tree None 0 [],
       bfs = [''0:1'', ''0:2'', ''0:4'', ''0:3''], decisions = [] \<rparr>"

text \<open>
  Patch payloads for \<open>button_tree\<close>: a list that decides \<^verbatim>\<open>1:1\<close> and \<^verbatim>\<open>1:2\<close>,
  a single object that decides \<^verbatim>\<open>1:2\<close> again, one that decides \<^verbatim>\<open>1:3\<close>, and one
  for the id \<^verbatim>\<open>9:9\<close>, which the tree does not have.
\<close>

definition patch_button_and_label :: json where
  "patch_button_and_label =
     JArr [JObj [(''id'', JStr ''1:1''), (''component'', JObj [(''base'', JStr ''UIButton'')])],
           JObj [(''id'', JStr ''1:2''), (''component'', JObj [(''base'', JStr ''UIView'')]),
                 (''layout'', JObj [(''kind'', JStr ''pins'')])]]"

definition patch_label_again :: json where
  "patch_label_again =
     JObj [(''id'', JStr ''1:2''), (''component'', JObj [(''base'', JStr ''UILabel'')]),
           (''properties'', JObj [(''text'', JStr ''Go'')])]"

definition patch_icon :: json where
  "patch_icon =
     JObj [(''id'', JStr ''1:3''), (''component'', JObj [(''base'', JStr ''UIImageView'')])]"

definition patch_unknown :: json where
  "patch_unknown =
     JObj [(''id'', JStr ''9:9''), (''component'', JObj [(''base'', JStr ''UIView'')])]"


definition sized_root_tree :: json where
  "sized_root_tree =
     JObj [(''id'', JStr ''3:1''), (''name'', JStr ''Card''), (''type'', JStr ''FRAME''),
           (''width'', JNum 300), (''height'', JNum 48),
           (''children'', JArr [
              JObj [(''id'', JStr ''3:2''), (''name'', JStr ''Label''), (''type'', JStr ''TEXT''),
                    (''characters'', JStr ''Go''),
                    (''x'', JNum 20), (''y'', JNum 12), (''width'', JNum 100), (''height'', JNum 24),
                    (''constraints'', JObj [(''horizontal'', JStr ''MAX''), (''vertical'', JStr ''MIN'')])]])]"

text \<open>A stand-in for Python's \<^verbatim>\<open>repr\<close> of a float, for inputs whose pins are all integral.\<close>

definition no_float_repr :: "rat \<Rightarrow> string" where
  "no_float_repr q = ''<float>''"

text \<open>
  Export trees used as concrete inputs of the absorption. \<open>go_button\<close> is a
  \<^verbatim>\<open>UIButton\<close> with no properties of its own, a \<^verbatim>\<open>UILabel\<close> child with the text
  \<^verbatim>\<open>Go\<close> and a \<^verbatim>\<open>UIImageView\<close> child with an image; \<open>titled_button\<close> is the same
  button with a title of its own; in \<open>wrapped_icon_button\<close> the image sits two
  levels down, in a \<^verbatim>\<open>UIImageView\<close> inside a \<^verbatim>\<open>UIImageView\<close> that has no image;
  in \<open>colored_label_button\<close> the label has a text colour and no text.
\<close>

definition go_label :: json where
  "go_label = JObj [(''source'', JObj [(''id'', JStr ''1:2'')]),
                    (''component'', JObj [(''base'', JStr ''UILabel'')]),
                    (''properties'', JObj [(''text'', JStr ''Go'')]),
                    (''children'', JArr [])]"

definition icon_image :: json where
  "icon_image = JObj [(''source'', JObj [(''id'', JStr ''1:3'')]),
                      (''component'', JObj [(''base'', JStr ''UIImageView'')]),
                      (''properties'', JObj [(''image'', JObj [(''imageHash'', JStr ''abc'')])]),
                      (''children'', JArr [])]"

definition go_button :: json where
  "go_button = JObj [(''source'', JObj [(''id'', JStr ''1:1'')]),
                     (''component'', JObj [(''base'', JStr ''UIButton'')]),
                     (''children'', JArr [go_label, icon_image])]"

definition titled_button :: json where
  "titled_button = JObj [(''source'', JObj [(''id'', JStr ''1:1'')]),
                         (''component'', JObj [(''base'', JStr ''UIButton'')]),
                         (''properties'', JObj [(''title'', JStr ''Stop'')]),
                         (''children'', JArr [go_label, icon_image])]"

definition wrapped_icon_button :: json where
  "wrapped_icon_button =
     JObj [(''source'', JObj [(''id'', JStr ''1:1'')]),
           (''component'', JObj [(''base'', JStr ''UIButton'')]),
           (''children'', JArr [
              JObj [(''source'', JObj [(''id'', JStr ''1:4'')]),
                    (''component'', JObj [(''base'', JStr ''UIImageView'')]),
                    (''children'', JArr [icon_image])]])]"

definition colored_label :: json where
  "colored_label = JObj [(''source'', JObj [(''id'', JStr ''1:2'')]),
                         (''component'', JObj [(''base'', JStr ''UILabel'')]),
                         (''properties'', JObj [(''textColor'', JObj [(''hex'', JStr ''#FF0000'')])]),
                         (''children'', JArr [])]"

definition colored_label_button :: json where
  "colored_label_button =
     JObj [(''source'', JObj [(''id'', JStr ''1:1'')]),
           (''component'', JObj [(''base'', JStr ''UIButton'')]),
           (''children'', JArr [colored_label])]"

text \<open>
  States used as inputs of \<^verbatim>\<open>cmd_validate\<close>: the state of \<open>button_tree\<close> with a
  decision for \<^verbatim>\<open>1:1\<close> that has no \<^verbatim>\<open>component\<close>, and the same state written by a
  tool of another version. \<open>any_float_ok\<close> stands for Python's \<^verbatim>\<open>float()\<close> on
  inputs that hold no pins string.
\<close>

definition no_component_state :: state where
  "no_component_state = button_state\<lparr>decisions := [(''1:1'', JObj [(''layout'', JObj [])])]\<rparr>"

definition other_version_state :: state where
  "other_version_state = button_state\<lparr>version := 2\<rparr>"

definition any_float_ok :: "string \<Rightarrow> bool" where
  "any_float_ok s = True"

text \<open>
  Runs of the tool on one state file. \<open>after_apply\<close> is the content of the file
  after a run of \<^verbatim>\<open>cmd_apply\<close>: the state it saved, or the old state when the run
  failed and saved nothing; \<open>after_applies\<close> is the content after several runs.
  \<open>decide_next\<close> is one round of the loop that drives the tool: ask
  \<^verbatim>\<open>_next_node_id\<close> for the next node and apply the decision \<open>d\<close> for it, sent
  as a one-item list \<^verbatim>\<open>[{"id": nid, ...d}]\<close>; when there is no next node the round
  does nothing.
\<close>

definition after_apply :: "state \<Rightarrow> json \<Rightarrow> state" where
  "after_apply st pay = (case saved (cmd_apply st pay) of None \<Rightarrow> st | Some st' \<Rightarrow> st')"

definition after_applies :: "state \<Rightarrow> json list \<Rightarrow> state" where
  "after_applies st pays = fold (\<lambda>pay s. after_apply s pay) pays st"

definition decide_next :: "pydict \<Rightarrow> state \<Rightarrow> state" where
  "decide_next d st =
     (case next_node_id st of
        None \<Rightarrow> st
      | Some nid \<Rightarrow> after_apply st (JArr [JObj (dset d ''id'' (JStr nid))]))"

section \<open>Facts about dicts\<close>

lemma map_of_dset: "map_of (dset d k v) = (map_of d)(k \<mapsto> v)"
  by (simp add: dset_def update_conv')

lemma has_key_dset: "has_key (dset d k v) k' = (k' = k \<or> has_key d k')"
  by (auto simp: has_key_def map_of_dset)

lemma dget_dset: "dget (dset d k v) k' = (if k' = k then v else dget d k')"
  by (simp add: dget_def map_of_dset)

lemma keys_dset: "fst ` set (dset d k v) = insert k (fst ` set d)"
  by (simp add: dset_def dom_update)

lemma distinct_dset: "distinct (map fst d) \<Longrightarrow> distinct (map fst (dset d k v))"
  by (simp add: dset_def distinct_update)

lemma has_key_dom: "has_key d k = (k \<in> dom (map_of d))"
  by (auto simp: has_key_def)

lemma has_key_keys: "has_key d k = (k \<in> fst ` set d)"
  by (simp add: has_key_def map_of_eq_None_iff)

lemma length_dset_new: "\<not> has_key d k \<Longrightarrow> length (dset d k v) = Suc (length d)"
  by (induction d) (auto simp: dset_def has_key_def split: if_splits)


lemma dget_Nil: "dget [] k = JNull"
  by (simp add: dget_def)

lemma join_Cons: "join sep (p # ps) = p @ (if ps = [] then [] else sep @ join sep ps)"
  by (cases ps) auto

lemma set_map_filter: "set (List.map_filter f xs) = {y. \<exists>x \<in> set xs. f x = Some y}"
  by (induction xs) (auto simp: List.map_filter_simps split: option.splits)

lemma fold_invariant:
  assumes "P a" and "\<And>x b. x \<in> set xs \<Longrightarrow> P b \<Longrightarrow> P (f x b)"
  shows "P (fold f xs a)"
  using assms by (induction xs arbitrary: a) auto

section \<open>The Decision Store under patches\<close>

lemma fold_apply_patch:
  "map_of (fst (fold (apply_patch ns) ps (D, A, W))) = map_of D ++ patch_map ns ps"
proof (induction ps arbitrary: D A W)
  case Nil
  then show ?case by (simp add: patch_map_def)
next
  case (Cons p ps)
  show ?case
  proof (cases "accepted ns p")
    case True
    then have "apply_patch ns p (D, A, W) = (dset D (fst p) (snd p), A @ [fst p], W)"
      by (simp add: apply_patch_def accepted_def)
    then show ?thesis
      using Cons.IH[of "dset D (fst p) (snd p)" "A @ [fst p]" W] True
      by (simp add: patch_map_def map_of_dset map_add_def fun_eq_iff split: option.splits)
  next
    case False
    then have "\<exists>W'. apply_patch ns p (D, A, W) = (D, A, W')"
      by (auto simp: apply_patch_def accepted_def)
    then obtain W' where "apply_patch ns p (D, A, W) = (D, A, W')" ..
    then show ?thesis
      using Cons.IH[of D A W'] False by (simp add: patch_map_def)
  qed
qed

lemma apply_patches_map: "map_of (fst (apply_patches ns ps D)) = map_of D ++ patch_map ns ps"
  by (simp add: apply_patches_def fold_apply_patch)

lemma patch_map_entry:
  "patch_map ns ps k = Some d \<Longrightarrow> (k, d) \<in> set ps \<and> has_key ns k \<and> is_dict d"
  by (auto simp: patch_map_def accepted_def dest!: map_of_SomeD)

lemma patch_map_dom: "dom (patch_map ns ps) = fst ` {p \<in> set ps. accepted ns p}"
  by (auto simp: patch_map_def dom_map_of_conv_image_fst)

text \<open>What a successful \<^verbatim>\<open>cmd_apply\<close> saves: the loaded state with the patched store.\<close>

lemma cmd_apply_saved:
  assumes "saved (cmd_apply st pay) = Some st'"
  shows "\<exists>ps. normalize_patch_payload pay = Inr ps
            \<and> version st = STATE_VERSION
            \<and> st' = st\<lparr>decisions := fst (apply_patches (nodes st) ps (decisions st))\<rparr>"
  using assms
  by (auto simp: cmd_apply_def load_state_def failed_def split: if_splits sum.splits prod.splits)

lemma cmd_apply_printed:
  assumes "printed (cmd_apply st pay) = Some applied"
  shows "\<exists>ps. normalize_patch_payload pay = Inr ps
            \<and> applied = fst (snd (apply_patches (nodes st) ps (decisions st)))
            \<and> saved (cmd_apply st pay)
                = Some (st\<lparr>decisions := fst (apply_patches (nodes st) ps (decisions st))\<rparr>)"
  using assms
  by (auto simp: cmd_apply_def load_state_def failed_def split: if_splits sum.splits prod.splits)


text \<open>The list \<^verbatim>\<open>applied\<close> and the warnings that the loop of \<^verbatim>\<open>cmd_apply\<close> builds.\<close>

lemma fold_apply_patch_lists:
  "snd (fold (apply_patch ns) ps (D, A, W))
     = (A @ map fst (filter (accepted ns) ps),
        W @ map (warning_of ns) (filter (\<lambda>p. \<not> accepted ns p) ps))"
proof (induction ps arbitrary: D A W)
  case Nil
  then show ?case by simp
next
  case (Cons p ps)
  show ?case
  proof (cases "accepted ns p")
    case True
    then have "apply_patch ns p (D, A, W) = (dset D (fst p) (snd p), A @ [fst p], W)"
      by (simp add: apply_patch_def accepted_def)
    then show ?thesis
      using Cons.IH[of "dset D (fst p) (snd p)" "A @ [fst p]" W] True by simp
  next
    case False
    then have "apply_patch ns p (D, A, W) = (D, A, W @ [warning_of ns p])"
      by (auto simp: apply_patch_def accepted_def warning_of_def)
    then show ?thesis
      using Cons.IH[of D A "W @ [warning_of ns p]"] False by simp
  qed
qed

text \<open>Every pair that \<^verbatim>\<open>normalize_patch_payload\<close> returns has a non-empty id and a dict as decision.\<close>

lemma normalize_patch_payload_pairs:
  assumes "normalize_patch_payload pay = Inr P" and "p \<in> set P"
  shows "is_dict (snd p) \<and> fst p \<noteq> []"
proof -
  have item: "is_dict (snd q) \<and> fst q \<noteq> []" if "patch_of_item x = Some q" for x q
    using that by (auto simp: patch_of_item_def nonempty_str_def split: json.splits if_splits)
  have entry: "is_dict (snd q) \<and> fst q \<noteq> []" if "patch_of_entry x = Some q" for x q
    using that by (auto simp: patch_of_entry_def split: if_splits)
  from assms show ?thesis
    by (auto simp: normalize_patch_payload_def set_map_filter
             split: json.splits if_splits option.splits dest: item entry)
qed

lemma normalized_warnings:
  assumes "normalize_patch_payload pay = Inr P"
  shows "map (warning_of ns) (filter (\<lambda>p. \<not> accepted ns p) P)
           = map UnknownPatchId (filter (\<lambda>k. \<not> has_key ns k) (map fst P))"
    and "map fst (filter (accepted ns) P) = filter (has_key ns) (map fst P)"
proof -
  have d: "\<forall>p \<in> set P. is_dict (snd p)"
    using normalize_patch_payload_pairs[OF assms] by blast
  then have 1: "filter (\<lambda>p. \<not> accepted ns p) P = filter (\<lambda>p. \<not> has_key ns (fst p)) P"
    by (intro filter_cong) (auto simp: accepted_def)
  have 2: "filter (accepted ns) P = filter (\<lambda>p. has_key ns (fst p)) P"
    using d by (intro filter_cong) (auto simp: accepted_def)
  show "map (warning_of ns) (filter (\<lambda>p. \<not> accepted ns p) P)
           = map UnknownPatchId (filter (\<lambda>k. \<not> has_key ns k) (map fst P))"
    unfolding 1 by (induction P) (auto simp: warning_of_def)
  show "map fst (filter (accepted ns) P) = filter (has_key ns) (map fst P)"
    unfolding 2 by (induction P) auto
qed

text \<open>The whole outcome of \<^verbatim>\<open>cmd_apply\<close> on a state that loads and a payload that normalises.\<close>

lemma cmd_apply_outcome:
  assumes "version st = STATE_VERSION" and "normalize_patch_payload pay = Inr P"
  shows "cmd_apply st pay
           = \<lparr> exit_code = 0,
               stderr = map UnknownPatchId (filter (\<lambda>k. \<not> has_key (nodes st) k) (map fst P)),
               saved = Some (st\<lparr>decisions := fst (apply_patches (nodes st) P (decisions st))\<rparr>),
               printed = Some (filter (has_key (nodes st)) (map fst P)) \<rparr>"
proof -
  obtain D A W where f: "apply_patches (nodes st) P (decisions st) = (D, A, W)"
    by (cases "apply_patches (nodes st) P (decisions st)") auto
  from fold_apply_patch_lists[of "nodes st" P "decisions st" "[]" "[]"] f
  have "A = map fst (filter (accepted (nodes st)) P)"
    "W = map (warning_of (nodes st)) (filter (\<lambda>p. \<not> accepted (nodes st) p) P)"
    by (simp_all add: apply_patches_def)
  with normalized_warnings[OF assms(2), of "nodes st"]
  have "A = filter (has_key (nodes st)) (map fst P)"
    "W = map UnknownPatchId (filter (\<lambda>k. \<not> has_key (nodes st) k) (map fst P))"
    by simp_all
  with assms f show ?thesis
    by (simp add: cmd_apply_def load_state_def)
qed


text \<open>
  Claim C3, as amended. Two successful \<^verbatim>\<open>cmd_apply\<close> runs, with patches \<open>P1\<close> then
  \<open>P2\<close> (the lists of pairs that \<^verbatim>\<open>normalize_patch_payload\<close> returns for the two
  payloads), leave the Decision Store equal to the old store overridden by what
  \<open>P1\<close> writes and then by what \<open>P2\<close> writes, where a patch writes, for each
  id, the decision of its last pair whose id is an indexed node. A pair whose id
  is not an indexed node writes nothing and is reported by one warning on stderr,
  in the order of the patch; these are the only lines on stderr, and the ids of
  the other pairs are printed as applied. (Every pair of a normalised patch has a
  dict as decision: what normalisation drops, it drops without a warning.) When
  the patches touch disjoint ids, what they write together is the union of what
  each writes; on an id that \<open>P2\<close> writes the stored value is the decision of
  \<open>P2\<close>, whole; and no run removes an entry.
\<close>

theorem apply_then_apply:
  assumes "saved (cmd_apply st pay1) = Some st1"
    and "saved (cmd_apply st1 pay2) = Some st2"
    and "normalize_patch_payload pay1 = Inr P1"
    and "normalize_patch_payload pay2 = Inr P2"
  shows "map_of (decisions st2)
           = map_of (decisions st) ++ patch_map (nodes st) P1 ++ patch_map (nodes st) P2
       \<and> (fst ` set P1 \<inter> fst ` set P2 = {} \<longrightarrow>
            Map.graph (patch_map (nodes st) P1 ++ patch_map (nodes st) P2)
              = Map.graph (patch_map (nodes st) P1) \<union> Map.graph (patch_map (nodes st) P2))
       \<and> (\<forall>k d. patch_map (nodes st) P2 k = Some d \<longrightarrow> map_of (decisions st2) k = Some d)
       \<and> (\<forall>k. has_key (decisions st) k \<longrightarrow> has_key (decisions st1) k)
       \<and> (\<forall>k. has_key (decisions st1) k \<longrightarrow> has_key (decisions st2) k)
       \<and> stderr (cmd_apply st pay1)
           = map UnknownPatchId (filter (\<lambda>k. \<not> has_key (nodes st) k) (map fst P1))
       \<and> stderr (cmd_apply st1 pay2)
           = map UnknownPatchId (filter (\<lambda>k. \<not> has_key (nodes st) k) (map fst P2))
       \<and> printed (cmd_apply st pay1) = Some (filter (has_key (nodes st)) (map fst P1))
       \<and> printed (cmd_apply st1 pay2) = Some (filter (has_key (nodes st)) (map fst P2))
       \<and> (\<forall>p \<in> set P1 \<union> set P2. is_dict (snd p))"
proof -
  from cmd_apply_saved[OF assms(1)] assms(3)
  have s1: "st1 = st\<lparr>decisions := fst (apply_patches (nodes st) P1 (decisions st))\<rparr>"
    and v: "version st = STATE_VERSION"
    by auto
  from cmd_apply_saved[OF assms(2)] assms(4)
  have s2: "st2 = st1\<lparr>decisions := fst (apply_patches (nodes st1) P2 (decisions st1))\<rparr>"
    and v1: "version st1 = STATE_VERSION"
    by auto
  have n1: "nodes st1 = nodes st"
    by (simp add: s1)
  have d1: "map_of (decisions st1) = map_of (decisions st) ++ patch_map (nodes st) P1"
    by (simp add: s1 apply_patches_map)
  have d2: "map_of (decisions st2) = map_of (decisions st1) ++ patch_map (nodes st) P2"
    by (simp add: s2 s1 apply_patches_map)
  have a: "map_of (decisions st2)
             = map_of (decisions st) ++ patch_map (nodes st) P1 ++ patch_map (nodes st) P2"
    by (simp add: d1 d2)
  have b: "Map.graph (patch_map (nodes st) P1 ++ patch_map (nodes st) P2)
              = Map.graph (patch_map (nodes st) P1) \<union> Map.graph (patch_map (nodes st) P2)"
    if "fst ` set P1 \<inter> fst ` set P2 = {}"
  proof -
    from that have "dom (patch_map (nodes st) P1) \<inter> dom (patch_map (nodes st) P2) = {}"
      by (auto simp: patch_map_dom)
    then show ?thesis
      by (rule graph_map_add)
  qed
  have c: "map_of (decisions st2) k = Some d" if "patch_map (nodes st) P2 k = Some d" for k d
    using that by (simp add: d2)
  have e: "has_key (decisions st1) k" if "has_key (decisions st) k" for k
    using that by (auto simp: has_key_dom d1)
  have f: "has_key (decisions st2) k" if "has_key (decisions st1) k" for k
    using that by (auto simp: has_key_dom d2)
  have g1: "stderr (cmd_apply st pay1)
              = map UnknownPatchId (filter (\<lambda>k. \<not> has_key (nodes st) k) (map fst P1))"
    and h1: "printed (cmd_apply st pay1) = Some (filter (has_key (nodes st)) (map fst P1))"
    by (simp_all add: cmd_apply_outcome[OF v assms(3)])
  have g2: "stderr (cmd_apply st1 pay2)
              = map UnknownPatchId (filter (\<lambda>k. \<not> has_key (nodes st) k) (map fst P2))"
    and h2: "printed (cmd_apply st1 pay2) = Some (filter (has_key (nodes st)) (map fst P2))"
    by (simp_all add: cmd_apply_outcome[OF v1 assms(4)] n1)
  have i: "is_dict (snd p)" if "p \<in> set P1 \<union> set P2" for p
    using that normalize_patch_payload_pairs[OF assms(3), of p]
      normalize_patch_payload_pairs[OF assms(4), of p]
    by blast
  from a b c e f g1 g2 h1 h2 i show ?thesis by blast
qed

text \<open>
  Witness for C3 on the state indexed from \<open>button_tree\<close>: a list patch decides
  \<^verbatim>\<open>1:1\<close> and \<^verbatim>\<open>1:2\<close>, a second patch decides \<^verbatim>\<open>1:2\<close> again; the store then holds
  the second decision for \<^verbatim>\<open>1:2\<close>, with no trace of the first one's \<^verbatim>\<open>layout\<close>, and
  still has \<^verbatim>\<open>1:1\<close>.
\<close>

theorem apply_then_apply_witness:
  "\<exists>st1 st2.
      saved (cmd_apply button_state patch_button_and_label) = Some st1
    \<and> saved (cmd_apply st1 patch_label_again) = Some st2
    \<and> map_of (decisions st2) ''1:2''
        = Some (JObj [(''component'', JObj [(''base'', JStr ''UILabel'')]),
                      (''properties'', JObj [(''text'', JStr ''Go'')])])
    \<and> has_key (decisions st2) ''1:1''"
proof -
  define st1 where "st1 = button_state\<lparr>decisions :=
      [(''1:1'', JObj [(''component'', JObj [(''base'', JStr ''UIButton'')])]),
       (''1:2'', JObj [(''component'', JObj [(''base'', JStr ''UIView'')]),
                       (''layout'', JObj [(''kind'', JStr ''pins'')])])]\<rparr>"
  define d2 where "d2 = JObj [(''component'', JObj [(''base'', JStr ''UILabel'')]),
                              (''properties'', JObj [(''text'', JStr ''Go'')])]"
  define st2 where "st2 = button_state\<lparr>decisions :=
      [(''1:1'', JObj [(''component'', JObj [(''base'', JStr ''UIButton'')])]), (''1:2'', d2)]\<rparr>"
  have h1: "saved (cmd_apply button_state patch_button_and_label) = Some st1"
    unfolding st1_def by code_simp
  have h2: "saved (cmd_apply st1 patch_label_again) = Some st2"
    unfolding st1_def st2_def d2_def by code_simp
  have n1: "normalize_patch_payload patch_button_and_label
              = Inr [(''1:1'', JObj [(''component'', JObj [(''base'', JStr ''UIButton'')])]),
                     (''1:2'', JObj [(''component'', JObj [(''base'', JStr ''UIView'')]),
                                     (''layout'', JObj [(''kind'', JStr ''pins'')])])]"
    by code_simp
  have n2: "normalize_patch_payload patch_label_again = Inr [(''1:2'', d2)]"
    unfolding d2_def by code_simp
  have k: "has_key (nodes button_state) ''1:2''"
    by code_simp
  have pm: "patch_map (nodes button_state) [(''1:2'', d2)] ''1:2'' = Some d2"
    using k by (simp add: patch_map_def accepted_def d2_def)
  have k1: "has_key (decisions st1) ''1:1''"
    by (simp add: st1_def has_key_def)
  from apply_then_apply[OF h1 h2 n1 n2] pm k1
  have "map_of (decisions st2) ''1:2'' = Some d2 \<and> has_key (decisions st2) ''1:1''"
    by blast
  with h1 h2 show ?thesis
    unfolding d2_def by blast
qed

text \<open>
  Counterexample to C3 as stated: the patches for \<^verbatim>\<open>9:9\<close> and for \<^verbatim>\<open>1:3\<close> touch
  disjoint ids, but the tree has no node \<^verbatim>\<open>9:9\<close>: its pair is skipped with the
  warning and the store is left as it was, so after both patches the store holds
  the entry of \<^verbatim>\<open>1:3\<close> alone, which is not the union of the two sets of entries.
\<close>

theorem apply_unknown_id_counterexample:
  "saved (cmd_apply button_state patch_unknown) = Some button_state
   \<and> stderr (cmd_apply button_state patch_unknown) = [UnknownPatchId ''9:9'']
   \<and> saved (cmd_apply button_state patch_icon)
       = Some (button_state\<lparr>decisions :=
                 [(''1:3'', JObj [(''component'', JObj [(''base'', JStr ''UIImageView'')])])]\<rparr>)
   \<and> normalize_patch_payload patch_unknown
       = Inr [(''9:9'', JObj [(''component'', JObj [(''base'', JStr ''UIView'')])])]
   \<and> normalize_patch_payload patch_icon
       = Inr [(''1:3'', JObj [(''component'', JObj [(''base'', JStr ''UIImageView'')])])]
   \<and> set [(''1:3'', JObj [(''component'', JObj [(''base'', JStr ''UIImageView'')])])]
       \<noteq> set [(''9:9'', JObj [(''component'', JObj [(''base'', JStr ''UIView'')])])]
          \<union> set [(''1:3'', JObj [(''component'', JObj [(''base'', JStr ''UIImageView'')])])]"
  by code_simp

section \<open>Indexing a tree with a repeated id\<close>








text \<open>What \<^verbatim>\<open>cmd_init\<close> does on the two example trees.\<close>

lemma cmd_init_button_tree:
  "cmd_init button_tree ''UIKit'' False 200
     = \<lparr> exit_code = 0, stderr = [], saved = Some button_state, printed = Some (''1:1'', 3, 3) \<rparr>"
  by code_simp

lemma cmd_init_dup_tree:
  "cmd_init dup_tree ''UIKit'' False 200
     = \<lparr> exit_code = 0, stderr = [], saved = Some dup_state, printed = Some (''0:1'', 4, 4) \<rparr>"
  by code_simp




text \<open>
  Claim C2 on \<open>dup_tree\<close>. The tree is accepted and indexed. The record kept for
  \<^verbatim>\<open>0:4\<close> is the first-visited one, three levels down with \<^verbatim>\<open>parentId\<close> \<^verbatim>\<open>0:3\<close>; the
  \<^verbatim>\<open>childIds\<close> of the root still list \<^verbatim>\<open>0:4\<close>, because the second occurrence is a
  child of the root. The breadth-first order therefore reaches \<^verbatim>\<open>0:4\<close> from the
  root, before \<^verbatim>\<open>0:3\<close>: the node stands before the record its \<^verbatim>\<open>parentId\<close> refers
  to. (The depth of the parent record, 2, is lower than the depth of the node, 3.)
\<close>

theorem bfs_order_duplicate_before_parent:
  "\<exists>st. saved (cmd_init dup_tree ''UIKit'' False 200) = Some st
      \<and> bfs st = [''0:1'', ''0:2'', ''0:4'', ''0:3'']
      \<and> map_option childIds (map_of (nodes st) ''0:1'') = Some [''0:2'', ''0:4'']
      \<and> map_option parentId (map_of (nodes st) ''0:4'') = Some (Some ''0:3'')
      \<and> map_option depth (map_of (nodes st) ''0:4'') = Some 3
      \<and> map_option depth (map_of (nodes st) ''0:3'') = Some 2"
proof -
  have "bfs dup_state = [''0:1'', ''0:2'', ''0:4'', ''0:3'']"
    by (simp add: dup_state_def)
  moreover have "map_option childIds (map_of (nodes dup_state) ''0:1'') = Some [''0:2'', ''0:4'']"
    by code_simp
  moreover have "map_option parentId (map_of (nodes dup_state) ''0:4'') = Some (Some ''0:3'')"
    by code_simp
  moreover have "map_option depth (map_of (nodes dup_state) ''0:4'') = Some 3"
    by code_simp
  moreover have "map_option depth (map_of (nodes dup_state) ''0:3'') = Some 2"
    by code_simp
  ultimately show ?thesis
    by (simp add: cmd_init_dup_tree)
qed

section \<open>Text facts\<close>






section \<open>The pins hint\<close>

text \<open>
  Claim C5. A node and its parent are indexed; the node's facts hold a frame with
  numbers \<open>x\<close>, \<open>y\<close>, \<open>width\<close>, \<open>height\<close> and a layout whose
  \<^verbatim>\<open>constraints\<close> have the horizontal constraint \<^verbatim>\<open>MAX\<close>; the parent's frame has
  numbers \<open>width\<close> and \<open>height\<close>; the node is not positioned by an
  auto-layout parent. The node's \<open>x = a\<close> and \<open>width = b\<close> and the parent's
  \<open>width = c\<close> are whole numbers of magnitude below \<open>2 ^ 50\<close>, on which the
  double arithmetic of the code is exact. Then the hint is \<^verbatim>\<open>pins=\<close> followed by
  the pin \<^verbatim>\<open>R=\<close> of the negated inset \<open>c - (a + b)\<close>, written as an integer,
  followed by nothing or by \<^verbatim>\<open>:\<close> and the other pins. For \<open>x = 20\<close>,
  \<open>width = 100\<close> and the parent's \<open>width = 300\<close> the hint starts with the pin
  \<^verbatim>\<open>R=-180\<close>.
\<close>

theorem pin_trailing_max:
  assumes "map_of ns nid = Some n" and "map_of ns pid = Some p" and "pid \<noteq> []"
    and "dget_default (facts n) ''layout'' (JObj []) = JObj layout"
    and "dget_default (facts n) ''frame'' (JObj []) = JObj frame"
    and "dget_default (facts p) ''frame'' (JObj []) = JObj pframe"
    and "\<not> driven_by_auto_layout (dget_default (facts p) ''layout'' (JObj [])) layout"
    and "dget layout ''constraints'' = JObj cons"
    and "upper (py_str (dget_default cons ''horizontal'' (JStr ''''))) = ''MAX''"
    and "dget frame ''x'' = JNum (of_int a)" and "dget frame ''width'' = JNum (of_int b)"
    and "is_number (dget frame ''y'')" and "is_number (dget frame ''height'')"
    and "dget pframe ''width'' = JNum (of_int c)" and "is_number (dget pframe ''height'')"
    and "\<bar>a\<bar> < 2 ^ 50" and "\<bar>b\<bar> < 2 ^ 50" and "\<bar>c\<bar> < 2 ^ 50"
  shows "(\<exists>rest. compute_constraint_hints fr ns nid (Some pid)
                  = Some (''pins=R='' @ show_int (- (c - (a + b))) @ rest)
               \<and> (rest = [] \<or> hd rest = CHR '':''))
       \<and> (a = 20 \<and> b = 100 \<and> c = 300 \<longrightarrow>
            (\<exists>rest. compute_constraint_hints fr ns nid (Some pid) = Some (''pins=R=-180'' @ rest)
                  \<and> (rest = [] \<or> hd rest = CHR '':'')))"
proof -
  define more where "more =
     vertical_anchors fr (upper (py_str (dget_default cons ''vertical'' (JStr ''''))))
        (float_of (dget frame ''y'')) (float_of (dget frame ''height'')) (float_of (dget pframe ''height''))
     @ size_pins fr (upper (py_str (dget_default layout ''layoutSizingHorizontal'' (JStr ''''))))
        (upper (py_str (dget_default layout ''layoutSizingVertical'' (JStr ''''))))
        (float_of (dget frame ''width'')) (float_of (dget frame ''height''))"
  define pin where "pin = ''R='' @ show_int (- (c - (a + b)))"
  have "- (rat_of_int c - (rat_of_int a + rat_of_int b)) = rat_of_int (- (c - (a + b)))"
    by simp
  then have "add_pin fr ''R'' (- (rat_of_int c - (rat_of_int a + rat_of_int b))) = pin"
    unfolding add_pin_def pin_def by (simp only: floor_of_int) simp
  then have pins: "pins_of fr layout cons frame pframe = pin # more"
    using assms(9,10,11,14) by (simp add: pins_of_def horizontal_anchors_def more_def)
  define tl_pins where "tl_pins = dedupe_pins more {takeWhile (\<lambda>c. c \<noteq> CHR ''='') pin}"
  have dd: "dedupe_pins (pin # more) {} = pin # tl_pins"
    by (simp add: tl_pins_def)
  have "compute_constraint_hints fr ns nid (Some pid) = Some (''pins='' @ join '':'' (pin # tl_pins))"
    using assms(1-15) pins dd by (simp add: compute_constraint_hints_def Let_def)
  then have "compute_constraint_hints fr ns nid (Some pid)
               = Some (''pins='' @ pin @ (if tl_pins = [] then [] else '':'' @ join '':'' tl_pins))"
    by (simp only: join_Cons)
  then have g: "\<exists>rest. compute_constraint_hints fr ns nid (Some pid)
                  = Some (''pins=R='' @ show_int (- (c - (a + b))) @ rest)
               \<and> (rest = [] \<or> hd rest = CHR '':'')"
    unfolding pin_def by (intro exI[of _ "if tl_pins = [] then [] else '':'' @ join '':'' tl_pins"]) simp
  have "show_int (- (300 - (20 + 100))) = ''-180''"
    by (simp add: show_int_def show_nat.simps digit_chars_def)
  with g have "a = 20 \<and> b = 100 \<and> c = 300 \<longrightarrow>
            (\<exists>rest. compute_constraint_hints fr ns nid (Some pid) = Some (''pins=R=-180'' @ rest)
                  \<and> (rest = [] \<or> hd rest = CHR '':''))"
    by auto
  with g show ?thesis by blast
qed

text \<open>
  Witness for C5: in the state indexed from \<open>button_tree\<close> the text node
  \<^verbatim>\<open>1:2\<close> (\<^verbatim>\<open>x=20\<close>, \<^verbatim>\<open>width=100\<close>, horizontal \<^verbatim>\<open>MAX\<close>) under the frame \<^verbatim>\<open>1:1\<close>
  (\<^verbatim>\<open>width=300\<close>) gets a hint that starts with \<^verbatim>\<open>pins=R=-180\<close>.
\<close>

theorem pin_trailing_max_witness:
  "\<exists>rest. compute_constraint_hints no_float_repr (nodes button_state) ''1:2'' (Some ''1:1'')
            = Some (''pins=R=-180'' @ rest)
          \<and> (rest = [] \<or> hd rest = CHR '':'')"
proof -
  define n where "n = the (map_of (nodes button_state) ''1:2'')"
  define p where "p = the (map_of (nodes button_state) ''1:1'')"
  define cons where "cons = [(''horizontal'', JStr ''MAX''), (''vertical'', JStr ''MIN'')]"
  define layout where "layout = [(''constraints'', JObj cons)]"
  define frame where
    "frame = [(''x'', JNum 20), (''y'', JNum 12), (''width'', JNum 100), (''height'', JNum 24)]"
  define pframe where
    "pframe = [(''x'', JNum 0), (''y'', JNum 0), (''width'', JNum 300), (''height'', JNum 48)]"
  have 1: "map_of (nodes button_state) ''1:2'' = Some n"
    unfolding n_def by code_simp
  have 2: "map_of (nodes button_state) ''1:1'' = Some p"
    unfolding p_def by code_simp
  have 3: "''1:1'' \<noteq> []"
    by simp
  have 4: "dget_default (facts n) ''layout'' (JObj []) = JObj layout"
    unfolding n_def layout_def cons_def by code_simp
  have 5: "dget_default (facts n) ''frame'' (JObj []) = JObj frame"
    unfolding n_def frame_def by code_simp
  have 6: "dget_default (facts p) ''frame'' (JObj []) = JObj pframe"
    unfolding p_def pframe_def by code_simp
  have 7: "\<not> driven_by_auto_layout (dget_default (facts p) ''layout'' (JObj [])) layout"
    unfolding p_def layout_def cons_def by code_simp
  have 8: "dget layout ''constraints'' = JObj cons"
    unfolding layout_def by (simp add: dget_def)
  have 9: "upper (py_str (dget_default cons ''horizontal'' (JStr ''''))) = ''MAX''"
    unfolding cons_def by code_simp
  have 10: "dget frame ''x'' = JNum (of_int 20)" "dget frame ''width'' = JNum (of_int 100)"
    "is_number (dget frame ''y'')" "is_number (dget frame ''height'')"
    unfolding frame_def by (simp_all add: dget_def)
  have 11: "dget pframe ''width'' = JNum (of_int 300)" "is_number (dget pframe ''height'')"
    unfolding pframe_def by (simp_all add: dget_def)
  have 12: "\<bar>20 :: int\<bar> < 2 ^ 50" "\<bar>100 :: int\<bar> < 2 ^ 50" "\<bar>300 :: int\<bar> < 2 ^ 50"
    by simp_all
  from pin_trailing_max[OF 1 2 3 4 5 6 7 8 9 10 11 12, of no_float_repr]
  show ?thesis by simp
qed

text \<open>
  Claim C6, as amended. When \<^verbatim>\<open>compute_constraint_hints\<close> returns a hint, then:
  the parent id is a non-empty string and both the node and the parent are
  indexed; the node's frame has numbers for \<^verbatim>\<open>x\<close>, \<^verbatim>\<open>y\<close>, \<^verbatim>\<open>width\<close> and
  \<^verbatim>\<open>height\<close>; the parent's frame has numbers for \<^verbatim>\<open>width\<close> and \<^verbatim>\<open>height\<close> (its
  \<^verbatim>\<open>x\<close> and \<^verbatim>\<open>y\<close> are not looked at); the node's layout has a \<^verbatim>\<open>constraints\<close>
  object; and either the parent's \<^verbatim>\<open>layoutMode\<close> is neither \<^verbatim>\<open>HORIZONTAL\<close> nor
  \<^verbatim>\<open>VERTICAL\<close>, or the node's \<^verbatim>\<open>layoutPositioning\<close> is \<^verbatim>\<open>ABSOLUTE\<close>. So whenever
  one of these fails, no hint is produced.
\<close>

theorem pins_hint_only_when:
  assumes "compute_constraint_hints fr ns nid parent = Some hint"
  shows "\<exists>pid n p layout frame pframe.
           parent = Some pid \<and> pid \<noteq> []
         \<and> map_of ns nid = Some n \<and> map_of ns pid = Some p
         \<and> dget_default (facts n) ''layout'' (JObj []) = JObj layout
         \<and> dget_default (facts n) ''frame'' (JObj []) = JObj frame
         \<and> dget_default (facts p) ''frame'' (JObj []) = JObj pframe
         \<and> is_number (dget frame ''x'') \<and> is_number (dget frame ''y'')
         \<and> is_number (dget frame ''width'') \<and> is_number (dget frame ''height'')
         \<and> is_number (dget pframe ''width'') \<and> is_number (dget pframe ''height'')
         \<and> is_dict (dget layout ''constraints'')
         \<and> (\<not> (is_dict (dget_default (facts p) ''layout'' (JObj []))
                 \<and> upper (py_str (dget_default (dict_of (dget_default (facts p) ''layout'' (JObj [])))
                                    ''layoutMode'' (JStr '''')))
                     \<in> {''HORIZONTAL'', ''VERTICAL''})
              \<or> upper (py_str (dget_default layout ''layoutPositioning'' (JStr ''''))) = ''ABSOLUTE'')"
proof -
  from assms obtain pid where pid: "parent = Some pid" "pid \<noteq> []"
    by (auto simp: compute_constraint_hints_def split: option.splits if_splits)
  from assms pid obtain n where n: "map_of ns nid = Some n"
    by (auto simp: compute_constraint_hints_def split: option.splits if_splits)
  from assms pid n obtain p where p: "map_of ns pid = Some p"
    by (auto simp: compute_constraint_hints_def split: option.splits if_splits)
  let ?layout = "dget_default (facts n) ''layout'' (JObj [])"
  let ?frame = "dget_default (facts n) ''frame'' (JObj [])"
  let ?pframe = "dget_default (facts p) ''frame'' (JObj [])"
  from assms pid n p have d: "is_dict ?layout" "is_dict ?frame" "is_dict ?pframe"
    by (auto simp: compute_constraint_hints_def Let_def split: if_splits)
  from assms pid n p d have g: "\<not> driven_by_auto_layout (dget_default (facts p) ''layout'' (JObj [])) (dict_of ?layout)"
    "is_dict (dget (dict_of ?layout) ''constraints'')"
    by (auto simp: compute_constraint_hints_def Let_def split: if_splits)
  from assms pid n p d g have f: "is_number (dget (dict_of ?frame) ''x'')" "is_number (dget (dict_of ?frame) ''y'')"
    "is_number (dget (dict_of ?frame) ''width'')" "is_number (dget (dict_of ?frame) ''height'')"
    "is_number (dget (dict_of ?pframe) ''width'')" "is_number (dget (dict_of ?pframe) ''height'')"
    by (auto simp: compute_constraint_hints_def Let_def split: if_splits)
  from d obtain layout frame pframe where e: "?layout = JObj layout" "?frame = JObj frame" "?pframe = JObj pframe"
    by (metis is_dict.elims(2))
  show ?thesis
    using pid n p e f g unfolding driven_by_auto_layout_def by auto
qed

text \<open>
  Witness for C6: the hint of the node \<^verbatim>\<open>1:2\<close> of \<open>button_tree\<close>, and the
  conditions it implies.
\<close>

theorem pins_hint_only_when_witness:
  "compute_constraint_hints no_float_repr (nodes button_state) ''1:2'' (Some ''1:1'')
     = Some ''pins=R=-180:T=12:W=100:H=24''
   \<and> (\<exists>n p frame pframe.
          map_of (nodes button_state) ''1:2'' = Some n \<and> map_of (nodes button_state) ''1:1'' = Some p
        \<and> dget_default (facts n) ''frame'' (JObj []) = JObj frame
        \<and> dget_default (facts p) ''frame'' (JObj []) = JObj pframe
        \<and> is_number (dget frame ''x'') \<and> is_number (dget frame ''y'')
        \<and> is_number (dget frame ''width'') \<and> is_number (dget frame ''height'')
        \<and> is_number (dget pframe ''width'') \<and> is_number (dget pframe ''height''))"
proof -
  have h: "compute_constraint_hints no_float_repr (nodes button_state) ''1:2'' (Some ''1:1'')
             = Some ''pins=R=-180:T=12:W=100:H=24''"
    by code_simp
  from pins_hint_only_when[OF h]
  obtain pid n p frame pframe where
    a: "Some ''1:1'' = Some pid"
       "map_of (nodes button_state) ''1:2'' = Some n"
       "map_of (nodes button_state) pid = Some p"
       "dget_default (facts n) ''frame'' (JObj []) = JObj frame"
       "dget_default (facts p) ''frame'' (JObj []) = JObj pframe"
       "is_number (dget frame ''x'')" "is_number (dget frame ''y'')"
       "is_number (dget frame ''width'')" "is_number (dget frame ''height'')"
       "is_number (dget pframe ''width'')" "is_number (dget pframe ''height'')"
    by blast
  from a(1) have "pid = ''1:1''"
    by simp
  with a h show ?thesis
    by blast
qed

text \<open>
  Counterexample to C6 as stated: the root of \<open>sized_root_tree\<close> has a width
  and a height but no \<^verbatim>\<open>x\<close> and no \<^verbatim>\<open>y\<close>, so the frame of the parent is not
  complete; its child still gets a pins hint.
\<close>

theorem pins_hint_counterexample:
  "compute_constraint_hints no_float_repr (visit False 200 sized_root_tree None 0 []) ''3:2'' (Some ''3:1'')
     = Some ''pins=R=-180:T=12:W=100:H=24''
   \<and> map_option (\<lambda>r. dget (facts r) ''frame'') (map_of (visit False 200 sized_root_tree None 0 []) ''3:1'')
       = Some (JObj [(''width'', JNum 300), (''height'', JNum 48)])"
  by code_simp

section \<open>Absorption of label and image children\<close>


lemma absorb_own_children_other_keys:
  assumes "k \<noteq> ''properties''" and "k \<noteq> ''children''"
  shows "\<exists>d'. absorb_own_children u node = JObj d' \<and> dget d' k = dget node k"
  using assms
  by (auto simp: absorb_own_children_def Let_def dget_dset split: json.splits option.splits prod.splits)

lemma absorb_tree_other_keys:
  assumes "k \<noteq> ''properties''" and "k \<noteq> ''children''"
  shows "\<exists>d'. absorb_children_in_export_tree u (JObj node) = JObj d' \<and> dget d' k = dget node k"
proof (cases "dget node ''children''")
  case (JArr cs)
  from absorb_own_children_other_keys[OF assms,
         of u "dset node ''children'' (JArr (map (absorb_children_in_export_tree u) cs))"]
  show ?thesis using JArr assms by (auto simp: dget_dset)
qed (use absorb_own_children_other_keys[OF assms, of u node] in auto)

lemma base_or_empty_absorb: "base_or_empty (absorb_children_in_export_tree u c) = base_or_empty c"
proof (cases c)
  case (JObj node)
  from absorb_tree_other_keys[of "''component''" u node]
  obtain d' where "absorb_children_in_export_tree u (JObj node) = JObj d'"
    "dget d' ''component'' = dget node ''component''"
    by auto
  then show ?thesis using JObj
    by (simp add: base_or_empty_def get_component_base_from_spec_def)
qed auto

lemma child_source_id_absorb: "child_source_id (absorb_children_in_export_tree u c) = child_source_id c"
proof (cases c)
  case (JObj node)
  from absorb_tree_other_keys[of "''source''" u node]
  obtain d' where "absorb_children_in_export_tree u (JObj node) = JObj d'"
    "dget d' ''source'' = dget node ''source''"
    by auto
  then show ?thesis using JObj
    by (simp add: child_source_id_def)
qed auto

text \<open>The node's own step, when it has a base and a non-empty list of children.\<close>

lemma absorb_own_children_eq:
  assumes "base_or_empty (JObj node) \<noteq> []" and "dget node ''children'' = JArr children"
    and "children \<noteq> []"
  shows "absorb_own_children u node =
     (case absorb_by_base u (base_or_empty (JObj node)) (child_properties (JObj node)) children of
        None \<Rightarrow> JObj (if is_dict (dget node ''properties'') then node
                       else dset node ''properties'' (JObj []))
      | Some (props', remove_idx) \<Rightarrow>
          if remove_idx \<noteq> {}
          then JObj (dset (dset (if is_dict (dget node ''properties'') then node
                                   else dset node ''properties'' (JObj []))
                             ''properties'' (JObj props'))
                       ''children'' (JArr (remove_indices remove_idx children)))
          else JObj (dset (if is_dict (dget node ''properties'') then node
                           else dset node ''properties'' (JObj []))
                       ''properties'' (JObj props')))"
  using assms
  by (auto simp: absorb_own_children_def Let_def child_properties_def split: option.splits prod.splits)

lemma child_properties_init:
  "child_properties (JObj (if is_dict (dget node ''properties'') then node
                           else dset node ''properties'' (JObj [])))
     = child_properties (JObj node)"
  by (cases "dget node ''properties''") (simp_all add: child_properties_def dget_dset)

lemma absorb_own_children_result:
  assumes "base_or_empty (JObj node) \<noteq> []" and "dget node ''children'' = JArr children"
    and "children \<noteq> []"
    and "absorb_by_base u (base_or_empty (JObj node)) (child_properties (JObj node)) children
           = Some (props', r)"
  shows "child_properties (absorb_own_children u node) = props'"
    and "r \<noteq> {} \<Longrightarrow> \<exists>res. absorb_own_children u node = JObj res
                         \<and> dget res ''children'' = JArr (remove_indices r children)"
  using assms by (simp_all add: absorb_own_children_eq child_properties_def dget_dset)

lemma absorb_by_base_passive:
  assumes "base \<noteq> ''UIButton''"
    and "base = ''UIImageView'' \<longrightarrow> is_dict (dget props ''image'')"
  shows "absorb_by_base ''UIKit'' base props children = None
       \<or> absorb_by_base ''UIKit'' base props children = Some (props, {})"
  using assms by (auto simp: absorb_by_base_def image_absorb_def)

lemma child_properties_own:
  assumes "base_or_empty (JObj node) \<noteq> ''UIButton''"
    and "base_or_empty (JObj node) = ''UIImageView''
           \<longrightarrow> is_dict (dget (child_properties (JObj node)) ''image'')"
  shows "child_properties (absorb_own_children ''UIKit'' node) = child_properties (JObj node)"
proof (cases "base_or_empty (JObj node) \<noteq> []
              \<and> (\<exists>children. dget node ''children'' = JArr children \<and> children \<noteq> [])")
  case False
  then show ?thesis
    by (auto simp: absorb_own_children_def Let_def split: json.splits)
next
  case True
  then obtain children where c: "base_or_empty (JObj node) \<noteq> []"
      "dget node ''children'' = JArr children" "children \<noteq> []"
    by blast
  from absorb_by_base_passive[OF assms, of children]
  show ?thesis
  proof
    assume "absorb_by_base ''UIKit'' (base_or_empty (JObj node)) (child_properties (JObj node)) children
              = None"
    then show ?thesis
      by (simp add: absorb_own_children_eq[OF c] child_properties_init)
  next
    assume "absorb_by_base ''UIKit'' (base_or_empty (JObj node)) (child_properties (JObj node)) children
              = Some (child_properties (JObj node), {})"
    from absorb_own_children_result(1)[OF c this] show ?thesis .
  qed
qed

lemma base_or_empty_children:
  "base_or_empty (JObj (dset node ''children'' v)) = base_or_empty (JObj node)"
  by (simp add: base_or_empty_def get_component_base_from_spec_def dget_dset)

lemma child_properties_children:
  "child_properties (JObj (dset node ''children'' v)) = child_properties (JObj node)"
  by (simp add: child_properties_def dget_dset)

lemma child_properties_absorb:
  assumes "base_or_empty c \<noteq> ''UIButton''"
    and "base_or_empty c = ''UIImageView'' \<longrightarrow> is_dict (dget (child_properties c) ''image'')"
  shows "child_properties (absorb_children_in_export_tree ''UIKit'' c) = child_properties c"
proof (cases c)
  case (JObj node)
  show ?thesis
  proof (cases "dget node ''children''")
    case (JArr cs)
    let ?n = "dset node ''children'' (JArr (map (absorb_children_in_export_tree ''UIKit'') cs))"
    from child_properties_own[of ?n] assms JObj
    have "child_properties (absorb_own_children ''UIKit'' ?n) = child_properties (JObj node)"
      by (simp add: base_or_empty_children child_properties_children)
    then show ?thesis using JObj JArr by simp
  qed (use child_properties_own[of node] assms JObj in auto)
qed (auto simp: child_properties_def)

lemma first_index_Some:
  "first_index P xs = Some i \<Longrightarrow> i < length xs \<and> P (xs ! i)"
proof (induction xs arbitrary: i)
  case (Cons x xs)
  show ?case
  proof (cases "P x")
    case True
    then show ?thesis using Cons.prems by auto
  next
    case False
    with Cons.prems obtain i' where i': "first_index P xs = Some i'" "i = Suc i'"
      by auto
    from Cons.IH[OF i'(1)] i'(2) show ?thesis
      by auto
  qed
qed simp

lemma first_index_map: "first_index P (map f xs) = first_index (\<lambda>x. P (f x)) xs"
  by (induction xs) auto

lemma remove_indices_nths: "remove_indices r xs = nths xs (- r)"
proof -
  have "enumerate 0 xs = map (\<lambda>(x, i). (i, x)) (zip xs [0..<length xs])"
    by (simp add: enumerate_eq_zip zip_commute[of "[0..<length xs]" xs] split_def)
  then show ?thesis
    by (simp add: remove_indices_def nths_def filter_map comp_def split_def)
qed

lemma length_remove_indices:
  assumes "i < length xs" and "i \<in> r"
  shows "length (remove_indices r xs) < length xs"
proof -
  have "{k. k < length xs \<and> k \<in> - r} \<subset> {k. k < length xs}"
    using assms by auto
  then have "card {k. k < length xs \<and> k \<in> - r} < card {k. k < length xs}"
    by (intro psubset_card_mono) auto
  then show ?thesis
    by (simp add: remove_indices_nths length_nths)
qed

text \<open>What the two copies of the \<^verbatim>\<open>UIButton\<close> branch read and write.\<close>

lemma absorb_label_cong:
  "child_properties c = child_properties c' \<Longrightarrow> child_source_id c = child_source_id c'
     \<Longrightarrow> absorb_label props c = absorb_label props c'"
  by (simp add: absorb_label_def set_with_source_def Let_def)

lemma absorb_button_image_cong:
  "child_properties c = child_properties c' \<Longrightarrow> child_source_id c = child_source_id c'
     \<Longrightarrow> absorb_button_image props c = absorb_button_image props c'"
  by (simp add: absorb_button_image_def set_with_source_def Let_def)

lemma absorb_button_image_other:
  "k \<notin> {''image'', ''imageFrom'', ''imageContentMode''}
     \<Longrightarrow> map_of (absorb_button_image props c) k = map_of props k"
  by (auto simp: absorb_button_image_def set_with_source_def Let_def map_of_dset split: option.splits)

lemma absorb_label_no_text:
  "\<not> is_str (dget (child_properties c) ''text'') \<Longrightarrow> k \<notin> {''titleColor'', ''titleFont''}
     \<Longrightarrow> map_of (absorb_label props c) k = map_of props k"
  by (auto simp: absorb_label_def Let_def map_of_dset)

lemma absorb_label_other:
  "k \<notin> {''title'', ''titleFrom'', ''titleColor'', ''titleFont''}
     \<Longrightarrow> map_of (absorb_label props c) k = map_of props k"
  by (auto simp: absorb_label_def set_with_source_def Let_def map_of_dset split: option.splits)

lemma absorb_label_color:
  "\<not> has_key props ''titleColor'' \<Longrightarrow> is_dict (dget (child_properties c) ''textColor'')
     \<Longrightarrow> map_of (absorb_label props c) ''titleColor'' = Some (dget (child_properties c) ''textColor'')"
  by (auto simp: absorb_label_def set_with_source_def Let_def map_of_dset has_key_dset
           split: option.splits)

lemma absorb_label_font:
  "\<not> has_key props ''titleFont'' \<Longrightarrow> is_dict (dget (child_properties c) ''font'')
     \<Longrightarrow> map_of (absorb_label props c) ''titleFont'' = Some (dget (child_properties c) ''font'')"
  by (auto simp: absorb_label_def set_with_source_def Let_def map_of_dset has_key_dset
           split: option.splits)

lemma absorb_label_title:
  "\<not> has_key props ''title'' \<Longrightarrow> dget (child_properties c) ''text'' = JStr t
     \<Longrightarrow> child_source_id c = Some lid
     \<Longrightarrow> map_of (absorb_label props c) ''title'' = Some (JStr t)
       \<and> map_of (absorb_label props c) ''titleFrom'' = Some (JStr lid)"
  by (auto simp: absorb_label_def set_with_source_def Let_def map_of_dset has_key_dset)

lemma absorb_button_image_image:
  "\<not> has_key props ''image'' \<Longrightarrow> dget (child_properties c) ''image'' = JObj img
     \<Longrightarrow> child_source_id c = Some iid
     \<Longrightarrow> map_of (absorb_button_image props c) ''image'' = Some (JObj img)
       \<and> map_of (absorb_button_image props c) ''imageFrom'' = Some (JStr iid)"
  by (auto simp: absorb_button_image_def set_with_source_def Let_def map_of_dset has_key_dset)

text \<open>
  The \<^verbatim>\<open>UIButton\<close> branch on the whole function: the properties and the children
  of the rewritten node, in terms of the rewritten children.
\<close>

lemma button_absorbed:
  assumes "base_or_empty (JObj node) = ''UIButton''" and "dget node ''children'' = JArr cs"
    and "cs \<noteq> []"
    and "button_absorb ''UILabel'' ''UIImageView'' absorb_label absorb_button_image
           (child_properties (JObj node)) (map (absorb_children_in_export_tree ''UIKit'') cs)
         = (props', r)"
  shows "child_properties (absorb_children_in_export_tree ''UIKit'' (JObj node)) = props'"
    and "r \<noteq> {} \<Longrightarrow> \<exists>res. absorb_children_in_export_tree ''UIKit'' (JObj node) = JObj res
           \<and> dget res ''children''
               = JArr (remove_indices r (map (absorb_children_in_export_tree ''UIKit'') cs))"
proof -
  let ?cs = "map (absorb_children_in_export_tree ''UIKit'') cs"
  let ?n = "dset node ''children'' (JArr ?cs)"
  have e: "absorb_children_in_export_tree ''UIKit'' (JObj node) = absorb_own_children ''UIKit'' ?n"
    using assms(2) by simp
  have 1: "base_or_empty (JObj ?n) \<noteq> []"
    using assms(1) by (simp add: base_or_empty_children)
  have 2: "dget ?n ''children'' = JArr ?cs"
    by (simp add: dget_dset)
  have 3: "?cs \<noteq> []"
    using assms(3) by simp
  have 4: "absorb_by_base ''UIKit'' (base_or_empty (JObj ?n)) (child_properties (JObj ?n)) ?cs
             = Some (props', r)"
    using assms(1,4) by (simp add: base_or_empty_children child_properties_children absorb_by_base_def)
  show "child_properties (absorb_children_in_export_tree ''UIKit'' (JObj node)) = props'"
    unfolding e by (rule absorb_own_children_result(1)[OF 1 2 3 4])
  show "\<exists>res. absorb_children_in_export_tree ''UIKit'' (JObj node) = JObj res
           \<and> dget res ''children'' = JArr (remove_indices r ?cs)" if "r \<noteq> {}"
    unfolding e by (rule absorb_own_children_result(2)[OF 1 2 3 4 that])
qed

lemma button_absorb_indices:
  "button_absorb lb ib on_label on_image props (map (absorb_children_in_export_tree u) cs)
     = (let label_i = first_index (\<lambda>c. base_or_empty c = lb) cs;
            image_i = first_index (\<lambda>c. base_or_empty c = ib) cs;
            p1 = (case label_i of None \<Rightarrow> props
                  | Some i \<Rightarrow> on_label props (map (absorb_children_in_export_tree u) cs ! i))
        in ((case image_i of None \<Rightarrow> p1
             | Some j \<Rightarrow> on_image p1 (map (absorb_children_in_export_tree u) cs ! j)),
            (case label_i of None \<Rightarrow> {} | Some i \<Rightarrow> {i})
              \<union> (case image_i of None \<Rightarrow> {} | Some j \<Rightarrow> {j})))"
  by (auto simp: button_absorb_def Let_def first_index_map base_or_empty_absorb split: option.splits)

text \<open>
  Claim C4, as amended. Under UIKit, take a node whose base is \<^verbatim>\<open>UIButton\<close>,
  whose own properties have no \<^verbatim>\<open>title\<close> and no \<^verbatim>\<open>image\<close>, and whose children
  are, in either order, a child of base \<^verbatim>\<open>UILabel\<close> whose properties hold the
  text \<^verbatim>\<open>Go\<close> and a child of base \<^verbatim>\<open>UIImageView\<close> whose properties hold an image
  object, each with a source id. After absorption the node's properties hold
  \<^verbatim>\<open>title = Go\<close>, \<^verbatim>\<open>titleFrom\<close> = the label's source id, \<^verbatim>\<open>image\<close> = the image
  object and \<^verbatim>\<open>imageFrom\<close> = the image child's source id, and its children list
  is empty. Absorption is bottom-up: the result is the node's own step applied to
  the node whose children have been rewritten first.
\<close>

theorem button_absorbs_label_and_image:
  assumes "base_or_empty (JObj node) = ''UIButton''"
    and "dget node ''children'' = JArr cs"
    and "cs = [label, icon] \<or> cs = [icon, label]"
    and "base_or_empty label = ''UILabel''"
    and "dget (child_properties label) ''text'' = JStr ''Go''"
    and "child_source_id label = Some lid"
    and "base_or_empty icon = ''UIImageView''"
    and "dget (child_properties icon) ''image'' = JObj img"
    and "child_source_id icon = Some iid"
    and "\<not> has_key (child_properties (JObj node)) ''title''"
    and "\<not> has_key (child_properties (JObj node)) ''image''"
  shows "(\<exists>res. absorb_children_in_export_tree ''UIKit'' (JObj node) = JObj res
          \<and> dget (child_properties (JObj res)) ''title'' = JStr ''Go''
          \<and> dget (child_properties (JObj res)) ''titleFrom'' = JStr lid
          \<and> dget (child_properties (JObj res)) ''image'' = JObj img
          \<and> dget (child_properties (JObj res)) ''imageFrom'' = JStr iid
          \<and> dget res ''children'' = JArr [])
       \<and> absorb_children_in_export_tree ''UIKit'' (JObj node)
           = absorb_own_children ''UIKit''
               (dset node ''children'' (JArr (map (absorb_children_in_export_tree ''UIKit'') cs)))"
proof -
  let ?A = "absorb_children_in_export_tree ''UIKit''"
  let ?props = "child_properties (JObj node)"
  have lab: "absorb_label ?props (?A label) = absorb_label ?props label"
    using assms(4) by (intro absorb_label_cong) (simp_all add: child_properties_absorb child_source_id_absorb)
  have im: "absorb_button_image q (?A icon) = absorb_button_image q icon" for q
    using assms(7,8) by (intro absorb_button_image_cong) (simp_all add: child_properties_absorb child_source_id_absorb)
  define p1 where "p1 = absorb_label ?props label"
  define p2 where "p2 = absorb_button_image p1 icon"
  have ne: "cs \<noteq> []"
    using assms(3) by auto
  have ba: "button_absorb ''UILabel'' ''UIImageView'' absorb_label absorb_button_image ?props (map ?A cs)
              = (p2, {0, 1})"
    using assms(3,4,7) by (auto simp: button_absorb_indices lab im p1_def p2_def Let_def)
  have rne: "{0, 1::nat} \<noteq> {}"
    by simp
  from button_absorbed(2)[OF assms(1,2) ne ba rne]
  obtain res where res: "?A (JObj node) = JObj res"
      "dget res ''children'' = JArr (remove_indices {0, 1} (map ?A cs))"
    by blast
  from button_absorbed(1)[OF assms(1,2) ne ba] res(1)
  have props: "child_properties (JObj res) = p2"
    by simp
  have kids: "dget res ''children'' = JArr []"
    using res(2) assms(3) by (auto simp: remove_indices_def)
  from absorb_label_title[OF assms(10,5,6)]
  have t1: "map_of p1 ''title'' = Some (JStr ''Go'')" "map_of p1 ''titleFrom'' = Some (JStr lid)"
    by (simp_all add: p1_def)
  then have t2: "dget p2 ''title'' = JStr ''Go''" "dget p2 ''titleFrom'' = JStr lid"
    by (simp_all add: p2_def dget_def absorb_button_image_other)
  have "map_of p1 ''image'' = map_of ?props ''image''"
    by (simp add: p1_def absorb_label_other)
  then have "\<not> has_key p1 ''image''"
    using assms(11) by (simp add: has_key_def)
  from absorb_button_image_image[OF this assms(8,9)]
  have i2: "dget p2 ''image'' = JObj img" "dget p2 ''imageFrom'' = JStr iid"
    by (simp_all add: p2_def dget_def)
  have e: "?A (JObj node) = absorb_own_children ''UIKit'' (dset node ''children'' (JArr (map ?A cs)))"
    using assms(2) by simp
  have r: "dget (child_properties (JObj res)) ''title'' = JStr ''Go''"
    "dget (child_properties (JObj res)) ''titleFrom'' = JStr lid"
    "dget (child_properties (JObj res)) ''image'' = JObj img"
    "dget (child_properties (JObj res)) ''imageFrom'' = JStr iid"
    using t2 i2 by (simp_all only: props)
  from res(1) r kids e show ?thesis
    by blast
qed

text \<open>
  Witness for C4 on \<open>go_button\<close>, and the bottom-up order on
  \<open>wrapped_icon_button\<close>: the inner image is first absorbed by the image view
  around it, and the button then absorbs it from that image view, whose source id
  it records.
\<close>

theorem button_absorbs_label_and_image_witness:
  "(\<exists>res. absorb_children_in_export_tree ''UIKit'' go_button = JObj res
        \<and> dget (child_properties (JObj res)) ''title'' = JStr ''Go''
        \<and> dget (child_properties (JObj res)) ''titleFrom'' = JStr ''1:2''
        \<and> dget (child_properties (JObj res)) ''image'' = JObj [(''imageHash'', JStr ''abc'')]
        \<and> dget (child_properties (JObj res)) ''imageFrom'' = JStr ''1:3''
        \<and> dget res ''children'' = JArr [])
   \<and> absorb_children_in_export_tree ''UIKit'' wrapped_icon_button
       = JObj [(''source'', JObj [(''id'', JStr ''1:1'')]),
               (''component'', JObj [(''base'', JStr ''UIButton'')]),
               (''children'', JArr []),
               (''properties'', JObj [(''image'', JObj [(''imageHash'', JStr ''abc'')]),
                                      (''imageFrom'', JStr ''1:4'')])]"
proof -
  define node where "node = dict_of go_button"
  have t: "go_button = JObj node"
    by (simp add: node_def go_button_def)
  have 1: "base_or_empty (JObj node) = ''UIButton''"
    unfolding node_def by code_simp
  have 2: "dget node ''children'' = JArr [go_label, icon_image]"
    unfolding node_def by code_simp
  have 3: "[go_label, icon_image] = [go_label, icon_image] \<or> [go_label, icon_image] = [icon_image, go_label]"
    by simp
  have 4: "base_or_empty go_label = ''UILabel''"
    by code_simp
  have 5: "dget (child_properties go_label) ''text'' = JStr ''Go''"
    by code_simp
  have 6: "child_source_id go_label = Some ''1:2''"
    by code_simp
  have 7: "base_or_empty icon_image = ''UIImageView''"
    by code_simp
  have 8: "dget (child_properties icon_image) ''image'' = JObj [(''imageHash'', JStr ''abc'')]"
    by code_simp
  have 9: "child_source_id icon_image = Some ''1:3''"
    by code_simp
  have 10: "\<not> has_key (child_properties (JObj node)) ''title''"
    "\<not> has_key (child_properties (JObj node)) ''image''"
    unfolding node_def by code_simp+
  have w: "absorb_children_in_export_tree ''UIKit'' wrapped_icon_button
       = JObj [(''source'', JObj [(''id'', JStr ''1:1'')]),
               (''component'', JObj [(''base'', JStr ''UIButton'')]),
               (''children'', JArr []),
               (''properties'', JObj [(''image'', JObj [(''imageHash'', JStr ''abc'')]),
                                      (''imageFrom'', JStr ''1:4'')])]"
    by code_simp
  from button_absorbs_label_and_image[OF 1 2 3 4 5 6 7 8 9 10] w show ?thesis
    unfolding t by blast
qed

text \<open>
  Counterexample to C4 as stated: \<open>titled_button\<close> is a \<^verbatim>\<open>UIButton\<close> with the
  same two children, and a title \<^verbatim>\<open>Stop\<close> of its own. Both children are removed,
  but the title stays \<^verbatim>\<open>Stop\<close> and no \<^verbatim>\<open>titleFrom\<close> is recorded: the label's text
  \<^verbatim>\<open>Go\<close> is not copied over a title that the parent already has.
\<close>

theorem button_keeps_own_title_counterexample:
  "base_or_empty titled_button = ''UIButton''
   \<and> dget (dict_of titled_button) ''children'' = JArr [go_label, icon_image]
   \<and> base_or_empty go_label = ''UILabel''
   \<and> dget (child_properties go_label) ''text'' = JStr ''Go''
   \<and> base_or_empty icon_image = ''UIImageView''
   \<and> absorb_children_in_export_tree ''UIKit'' titled_button
       = JObj [(''source'', JObj [(''id'', JStr ''1:1'')]),
               (''component'', JObj [(''base'', JStr ''UIButton'')]),
               (''properties'', JObj [(''title'', JStr ''Stop''),
                                      (''image'', JObj [(''imageHash'', JStr ''abc'')]),
                                      (''imageFrom'', JStr ''1:3'')]),
               (''children'', JArr [])]"
  by code_simp

text \<open>
  Claim C10, as amended. Under UIKit, a node whose base is \<^verbatim>\<open>UIButton\<close> and that
  has a child of base \<^verbatim>\<open>UILabel\<close> always loses the first such child (index
  \<open>i\<close>) from its children list, together with the first \<^verbatim>\<open>UIImageView\<close> child
  if there is one and nothing else. When that label child has no string
  \<^verbatim>\<open>text\<close>, the node's \<^verbatim>\<open>title\<close> and \<^verbatim>\<open>titleFrom\<close> entries are what they were
  (nothing is copied to them). But \<^verbatim>\<open>titleColor\<close> and \<^verbatim>\<open>titleFont\<close> do not depend
  on the text: when the node has no \<^verbatim>\<open>titleColor\<close> and the child's \<^verbatim>\<open>textColor\<close>
  is an object it is copied, and likewise \<^verbatim>\<open>font\<close> to \<^verbatim>\<open>titleFont\<close>.
\<close>

theorem button_label_removed:
  assumes "base_or_empty (JObj node) = ''UIButton''"
    and "dget node ''children'' = JArr cs"
    and "first_index (\<lambda>c. base_or_empty c = ''UILabel'') cs = Some i"
  shows "\<exists>res kept.
       absorb_children_in_export_tree ''UIKit'' (JObj node) = JObj res
     \<and> dget res ''children'' = JArr kept
     \<and> kept = remove_indices
                ({i} \<union> (case first_index (\<lambda>c. base_or_empty c = ''UIImageView'') cs of
                           None \<Rightarrow> {} | Some j \<Rightarrow> {j}))
                (map (absorb_children_in_export_tree ''UIKit'') cs)
     \<and> length kept < length cs
     \<and> (\<not> is_str (dget (child_properties (cs ! i)) ''text'') \<longrightarrow>
          map_of (child_properties (JObj res)) ''title''
            = map_of (child_properties (JObj node)) ''title''
        \<and> map_of (child_properties (JObj res)) ''titleFrom''
            = map_of (child_properties (JObj node)) ''titleFrom'')
     \<and> (\<not> has_key (child_properties (JObj node)) ''titleColor''
          \<and> is_dict (dget (child_properties (cs ! i)) ''textColor'') \<longrightarrow>
          map_of (child_properties (JObj res)) ''titleColor''
            = Some (dget (child_properties (cs ! i)) ''textColor''))
     \<and> (\<not> has_key (child_properties (JObj node)) ''titleFont''
          \<and> is_dict (dget (child_properties (cs ! i)) ''font'') \<longrightarrow>
          map_of (child_properties (JObj res)) ''titleFont''
            = Some (dget (child_properties (cs ! i)) ''font''))"
proof -
  let ?A = "absorb_children_in_export_tree ''UIKit''"
  let ?props = "child_properties (JObj node)"
  let ?image_i = "first_index (\<lambda>c. base_or_empty c = ''UIImageView'') cs"
  let ?r = "{i} \<union> (case ?image_i of None \<Rightarrow> {} | Some j \<Rightarrow> {j})"
  from first_index_Some[OF assms(3)] have i: "i < length cs" "base_or_empty (cs ! i) = ''UILabel''"
    by auto
  then have ne: "cs \<noteq> []"
    by auto
  have lab: "absorb_label ?props (map ?A cs ! i) = absorb_label ?props (cs ! i)"
    using i by (intro absorb_label_cong) (simp_all add: child_properties_absorb child_source_id_absorb)
  define p1 where "p1 = absorb_label ?props (cs ! i)"
  define p2 where "p2 = (case ?image_i of None \<Rightarrow> p1
                         | Some j \<Rightarrow> absorb_button_image p1 (map ?A cs ! j))"
  have ba: "button_absorb ''UILabel'' ''UIImageView'' absorb_label absorb_button_image ?props (map ?A cs)
              = (p2, ?r)"
    by (simp add: button_absorb_indices assms(3) lab p1_def p2_def Let_def split: option.splits)
  have rne: "?r \<noteq> {}"
    by simp
  from button_absorbed(2)[OF assms(1,2) ne ba rne]
  obtain res where res: "?A (JObj node) = JObj res" "dget res ''children'' = JArr (remove_indices ?r (map ?A cs))"
    by blast
  from button_absorbed(1)[OF assms(1,2) ne ba] res(1)
  have props: "child_properties (JObj res) = p2"
    by simp
  have len: "length (remove_indices ?r (map ?A cs)) < length cs"
    using length_remove_indices[of i "map ?A cs" ?r] i(1) by simp
  have keep: "map_of p2 k = map_of p1 k" if "k \<notin> {''image'', ''imageFrom'', ''imageContentMode''}" for k
    using that by (simp add: p2_def absorb_button_image_other split: option.splits)
  have t: "map_of p2 ''title'' = map_of ?props ''title'' \<and> map_of p2 ''titleFrom'' = map_of ?props ''titleFrom''"
    if "\<not> is_str (dget (child_properties (cs ! i)) ''text'')"
    using that by (simp add: keep p1_def absorb_label_no_text)
  have c: "map_of p2 ''titleColor'' = Some (dget (child_properties (cs ! i)) ''textColor'')"
    if "\<not> has_key ?props ''titleColor'' \<and> is_dict (dget (child_properties (cs ! i)) ''textColor'')"
    using that by (simp add: keep p1_def absorb_label_color)
  have f: "map_of p2 ''titleFont'' = Some (dget (child_properties (cs ! i)) ''font'')"
    if "\<not> has_key ?props ''titleFont'' \<and> is_dict (dget (child_properties (cs ! i)) ''font'')"
    using that by (simp add: keep p1_def absorb_label_font)
  have t': "\<not> is_str (dget (child_properties (cs ! i)) ''text'') \<longrightarrow>
          map_of (child_properties (JObj res)) ''title'' = map_of ?props ''title''
        \<and> map_of (child_properties (JObj res)) ''titleFrom'' = map_of ?props ''titleFrom''"
    using t by (simp add: props)
  have c': "\<not> has_key ?props ''titleColor''
          \<and> is_dict (dget (child_properties (cs ! i)) ''textColor'') \<longrightarrow>
          map_of (child_properties (JObj res)) ''titleColor''
            = Some (dget (child_properties (cs ! i)) ''textColor'')"
    using c by (simp add: props)
  have f': "\<not> has_key ?props ''titleFont''
          \<and> is_dict (dget (child_properties (cs ! i)) ''font'') \<longrightarrow>
          map_of (child_properties (JObj res)) ''titleFont''
            = Some (dget (child_properties (cs ! i)) ''font'')"
    using f by (simp add: props)
  show ?thesis
    by (intro exI[of _ res] exI[of _ "remove_indices ?r (map ?A cs)"] conjI)
       (rule res len t' c' f' refl)+
qed

text \<open>
  Witness for C10 on \<open>colored_label_button\<close>: the label child has no text. It
  is removed, the button gets no title and no \<^verbatim>\<open>titleFrom\<close>, and it gets the
  child's text colour as \<^verbatim>\<open>titleColor\<close>.
\<close>

theorem button_label_removed_witness:
  "\<exists>res. absorb_children_in_export_tree ''UIKit'' colored_label_button = JObj res
        \<and> dget res ''children'' = JArr []
        \<and> map_of (child_properties (JObj res)) ''title'' = None
        \<and> map_of (child_properties (JObj res)) ''titleFrom'' = None
        \<and> map_of (child_properties (JObj res)) ''titleColor''
            = Some (JObj [(''hex'', JStr ''#FF0000'')])"
proof -
  define node where "node = dict_of colored_label_button"
  have t: "colored_label_button = JObj node"
    by (simp add: node_def colored_label_button_def)
  have 1: "base_or_empty (JObj node) = ''UIButton''"
    unfolding node_def by code_simp
  have 2: "dget node ''children'' = JArr [colored_label]"
    unfolding node_def by code_simp
  have 3: "first_index (\<lambda>c. base_or_empty c = ''UILabel'') [colored_label] = Some 0"
    by code_simp
  have 4: "\<not> is_str (dget (child_properties ([colored_label] ! 0)) ''text'')"
    by code_simp
  have 5: "\<not> has_key (child_properties (JObj node)) ''titleColor''"
    unfolding node_def by code_simp
  have 6: "dget (child_properties ([colored_label] ! 0)) ''textColor'' = JObj [(''hex'', JStr ''#FF0000'')]"
    by code_simp
  have 7: "map_of (child_properties (JObj node)) ''title'' = None"
    "map_of (child_properties (JObj node)) ''titleFrom'' = None"
    unfolding node_def by code_simp+
  have 8: "length (kept :: json list) < length [colored_label] \<Longrightarrow> kept = []" for kept
    by simp
  from button_label_removed[OF 1 2 3] 4 5 6 7 8 show ?thesis
    unfolding t by (elim exE conjE) (intro exI conjI, assumption, auto)
qed

text \<open>
  Counterexample to C10 as stated: the label child of \<open>colored_label_button\<close>
  has no string \<^verbatim>\<open>text\<close>, and it is dropped; yet the parent is given its text
  colour as \<^verbatim>\<open>titleColor\<close>.
\<close>

theorem button_label_color_counterexample:
  "\<not> is_str (dget (child_properties colored_label) ''text'')
   \<and> absorb_children_in_export_tree ''UIKit'' colored_label_button
       = JObj [(''source'', JObj [(''id'', JStr ''1:1'')]),
               (''component'', JObj [(''base'', JStr ''UIButton'')]),
               (''children'', JArr []),
               (''properties'', JObj [(''titleColor'', JObj [(''hex'', JStr ''#FF0000'')])])]"
  by code_simp

section \<open>The validation report\<close>


lemma nodeId_finding_of: "nodeId (finding_of nid msg det) = nid"
  by (simp add: finding_of_def)

lemma validate_layout_errors:
  "e \<in> set (fst (validate_layout fo nid lay)) \<Longrightarrow> nodeId e = nid"
  by (auto simp: validate_layout_def Let_def nodeId_finding_of split: if_splits)

lemma validate_cell_errors:
  "e \<in> set (validate_cell nid base layout) \<Longrightarrow> nodeId e = nid"
  by (auto simp: validate_cell_def Let_def nodeId_finding_of split: if_splits)

lemma validate_node_errors:
  assumes "e \<in> set (fst (validate_node fo u decs nid))"
  shows "nodeId e = nid \<and> dget decs nid \<noteq> JNull"
proof -
  from assms have n: "dget decs nid \<noteq> JNull"
    by (auto simp: validate_node_def Let_def)
  from assms have "nodeId e = nid"
    by (auto simp: validate_node_def Let_def nodeId_finding_of
             dest: validate_layout_errors validate_cell_errors split: if_splits)
  with n show ?thesis by simp
qed

lemma validate_node_missing:
  "dget decs nid = JNull \<Longrightarrow> validate_node fo u decs nid = ([], [finding_of nid ''missing_decision'' None])"
  by (simp add: validate_node_def)

lemma validate_node_no_component:
  "is_dict (dget decs nid) \<Longrightarrow> \<not> is_dict (dget (dict_of (dget decs nid)) ''component'')
     \<Longrightarrow> validate_node fo u decs nid = ([finding_of nid ''missing_component_object'' None], [])"
  by (auto simp: validate_node_def Let_def)

lemma base_component_Null: "base_component_from_decision JNull = None"
  by (simp add: base_component_from_decision_def get_component_base_from_spec_def)

lemma validate_child_errors:
  assumes "e \<in> set (fst (validate_child u decs pid pbase cid))"
  shows "nodeId e = cid \<and> dget decs cid \<noteq> JNull"
proof -
  from assms have "nodeId e = cid \<and> base_component_from_decision (dget decs cid) \<noteq> None"
    by (auto simp: validate_child_def Let_def nodeId_finding_of split: if_splits option.splits)
  then show ?thesis
    by (auto simp: base_component_Null)
qed

lemma validate_child_no_base: "validate_child u decs pid [] cid = ([], [])"
  by (simp add: validate_child_def Let_def)

lemma validate_parent_errors:
  assumes "e \<in> set (fst (validate_parent u decs entry))"
  shows "dget decs (nodeId e) \<noteq> JNull"
  using assms by (auto simp: validate_parent_def collect_def dest: validate_child_errors)

lemma validate_parent_undecided:
  "dget decs (fst entry) = JNull \<Longrightarrow> validate_parent u decs entry = ([], [])"
  by (simp add: validate_parent_def collect_def base_component_Null validate_child_no_base)

lemma validate_state_errors:
  assumes "e \<in> set (fst (validate_state fo st))"
  shows "dget (decisions st) (nodeId e) \<noteq> JNull"
  using assms
  by (auto simp: validate_state_def collect_def dest: validate_node_errors validate_parent_errors)

lemma validate_state_missing:
  assumes "nid \<in> set (map fst (nodes st))" and "dget (decisions st) nid = JNull"
  shows "finding_of nid ''missing_decision'' None \<in> set (snd (validate_state fo st))"
proof -
  have "finding_of nid ''missing_decision'' None
          \<in> set (snd (validate_node fo (uiSystem st) (decisions st) nid))"
    by (simp add: validate_node_missing[OF assms(2)])
  with assms(1) show ?thesis
    by (auto simp: validate_state_def collect_def)
qed

lemma validate_state_no_component:
  assumes "nid \<in> set (map fst (nodes st))" and "is_dict (dget (decisions st) nid)"
    and "\<not> is_dict (dget (dict_of (dget (decisions st) nid)) ''component'')"
  shows "finding_of nid ''missing_component_object'' None \<in> set (fst (validate_state fo st))"
proof -
  have "finding_of nid ''missing_component_object'' None
          \<in> set (fst (validate_node fo (uiSystem st) (decisions st) nid))"
    by (simp add: validate_node_no_component[OF assms(2,3)])
  with assms(1) show ?thesis
    by (auto simp: validate_state_def collect_def)
qed

lemma concat_map_Nil: "concat (map (\<lambda>x. []) xs) = []"
  by (induction xs) auto

lemma concat_map_single: "concat (map (\<lambda>x. [f x]) xs) = map f xs"
  by (induction xs) auto

lemma validate_state_all_undecided:
  assumes "\<forall>k. dget (decisions st) k = JNull"
  shows "validate_state fo st
           = ([], map (\<lambda>nid. finding_of nid ''missing_decision'' None) (map fst (nodes st)))"
proof -
  have 1: "validate_node fo (uiSystem st) (decisions st)
             = (\<lambda>nid. ([], [finding_of nid ''missing_decision'' None]))"
    using assms by (auto simp: validate_node_missing)
  have 2: "validate_parent (uiSystem st) (decisions st) = (\<lambda>entry. ([], []))"
    using assms by (auto simp: validate_parent_undecided)
  show ?thesis
    unfolding validate_state_def 1 2
    by (simp add: collect_def comp_def concat_map_Nil concat_map_single)
qed

text \<open>
  Claim C9, as amended. When the state loads, \<^verbatim>\<open>cmd_validate\<close> prints a report
  whose \<^verbatim>\<open>ok\<close> is true exactly when its error list is empty, and its status is 0
  when the list is empty and 1 otherwise. Every error is about a node that has a
  decision: a node with no recorded decision yields the warning
  \<^verbatim>\<open>missing_decision\<close> and never an error, and when no node has a decision the
  report is ok, without errors, with one such warning per node. (Errors do make
  the report fail: a decided node whose decision has no \<^verbatim>\<open>component\<close> object
  yields an error, \<^verbatim>\<open>ok\<close> false and status 1.) When the state does not load,
  because its version is not the tool's, there is no report: the status is 2 and
  one error line is written to stderr.
\<close>

theorem validate_ok_iff_no_errors:
  "(version st = STATE_VERSION \<longrightarrow>
      (\<exists>rep. printed (cmd_validate fo st) = Some rep
         \<and> ok rep = (errors rep = [])
         \<and> exit_code (cmd_validate fo st) = (if errors rep = [] then 0 else 1)
         \<and> (\<forall>e \<in> set (errors rep). dget (decisions st) (nodeId e) \<noteq> JNull)
         \<and> (\<forall>nid \<in> set (map fst (nodes st)).
               dget (decisions st) nid = JNull \<longrightarrow>
                 finding_of nid ''missing_decision'' None \<in> set (warnings rep))
         \<and> ((\<forall>k. dget (decisions st) k = JNull) \<longrightarrow>
               ok rep \<and> errors rep = []
             \<and> warnings rep
                 = map (\<lambda>nid. finding_of nid ''missing_decision'' None) (map fst (nodes st)))
         \<and> (\<forall>nid \<in> set (map fst (nodes st)).
               is_dict (dget (decisions st) nid)
               \<and> \<not> is_dict (dget (dict_of (dget (decisions st) nid)) ''component'') \<longrightarrow>
                 finding_of nid ''missing_component_object'' None \<in> set (errors rep)
               \<and> \<not> ok rep \<and> exit_code (cmd_validate fo st) = 1)))
   \<and> (version st \<noteq> STATE_VERSION \<longrightarrow>
        exit_code (cmd_validate fo st) = 2 \<and> printed (cmd_validate fo st) = None
      \<and> stderr (cmd_validate fo st) = [ErrorLine UnsupportedVersion])"
proof -
  define found where "found = validate_state fo st"
  define rep where "rep = \<lparr> ok = (length (fst found) = 0), errors = fst found, warnings = snd found \<rparr>"
  have bad: "exit_code (cmd_validate fo st) = 2 \<and> printed (cmd_validate fo st) = None
      \<and> stderr (cmd_validate fo st) = [ErrorLine UnsupportedVersion]"
    if "version st \<noteq> STATE_VERSION"
    using that by (simp add: cmd_validate_def load_state_def failed_def)
  have good: "\<exists>rep. printed (cmd_validate fo st) = Some rep
         \<and> ok rep = (errors rep = [])
         \<and> exit_code (cmd_validate fo st) = (if errors rep = [] then 0 else 1)
         \<and> (\<forall>e \<in> set (errors rep). dget (decisions st) (nodeId e) \<noteq> JNull)
         \<and> (\<forall>nid \<in> set (map fst (nodes st)).
               dget (decisions st) nid = JNull \<longrightarrow>
                 finding_of nid ''missing_decision'' None \<in> set (warnings rep))
         \<and> ((\<forall>k. dget (decisions st) k = JNull) \<longrightarrow>
               ok rep \<and> errors rep = []
             \<and> warnings rep
                 = map (\<lambda>nid. finding_of nid ''missing_decision'' None) (map fst (nodes st)))
         \<and> (\<forall>nid \<in> set (map fst (nodes st)).
               is_dict (dget (decisions st) nid)
               \<and> \<not> is_dict (dget (dict_of (dget (decisions st) nid)) ''component'') \<longrightarrow>
                 finding_of nid ''missing_component_object'' None \<in> set (errors rep)
               \<and> \<not> ok rep \<and> exit_code (cmd_validate fo st) = 1)"
    if v: "version st = STATE_VERSION"
  proof -
    have p: "printed (cmd_validate fo st) = Some rep"
      and x: "exit_code (cmd_validate fo st) = (if errors rep = [] then 0 else 1)"
      using v by (simp_all add: cmd_validate_def load_state_def Let_def rep_def found_def)
    have o: "ok rep = (errors rep = [])"
      by (simp add: rep_def)
    have e: "\<forall>e \<in> set (errors rep). dget (decisions st) (nodeId e) \<noteq> JNull"
      by (simp add: rep_def found_def validate_state_errors)
    have w: "\<forall>nid \<in> set (map fst (nodes st)).
               dget (decisions st) nid = JNull \<longrightarrow>
                 finding_of nid ''missing_decision'' None \<in> set (warnings rep)"
      using validate_state_missing[of _ st fo] by (simp add: rep_def found_def)
    have a: "ok rep \<and> errors rep = []
             \<and> warnings rep
                 = map (\<lambda>nid. finding_of nid ''missing_decision'' None) (map fst (nodes st))"
      if "\<forall>k. dget (decisions st) k = JNull"
      using validate_state_all_undecided[OF that, of fo] by (simp add: rep_def found_def)
    have c: "finding_of nid ''missing_component_object'' None \<in> set (errors rep)
               \<and> \<not> ok rep \<and> exit_code (cmd_validate fo st) = 1"
      if "nid \<in> set (map fst (nodes st))" and "is_dict (dget (decisions st) nid)
               \<and> \<not> is_dict (dget (dict_of (dget (decisions st) nid)) ''component'')" for nid
    proof -
      from validate_state_no_component[OF that(1), of fo] that(2)
      have m: "finding_of nid ''missing_component_object'' None \<in> set (errors rep)"
        by (simp add: rep_def found_def)
      then have "errors rep \<noteq> []"
        by auto
      with m o x show ?thesis by simp
    qed
    from p o x e w a c show ?thesis
      by (intro exI[of _ rep]) blast
  qed
  from good bad show ?thesis by blast
qed

text \<open>
  Witness for C9. The state indexed from \<open>button_tree\<close> has three nodes and no
  decision: the report is ok, with no error and three warnings, and the status is
  0. With a decision for \<^verbatim>\<open>1:1\<close> that has no \<^verbatim>\<open>component\<close> object the report has an
  error, is not ok, and the status is 1.
\<close>

theorem validate_ok_iff_no_errors_witness:
  "(\<exists>rep. printed (cmd_validate any_float_ok button_state) = Some rep
        \<and> ok rep \<and> errors rep = [] \<and> length (warnings rep) = 3)
   \<and> exit_code (cmd_validate any_float_ok button_state) = 0
   \<and> (\<exists>rep. printed (cmd_validate any_float_ok no_component_state) = Some rep
        \<and> \<not> ok rep
        \<and> finding_of ''1:1'' ''missing_component_object'' None \<in> set (errors rep))
   \<and> exit_code (cmd_validate any_float_ok no_component_state) = 1"
proof -
  have v: "version button_state = STATE_VERSION" "version no_component_state = STATE_VERSION"
    by code_simp+
  have u: "\<forall>k. dget (decisions button_state) k = JNull"
    by (simp add: button_state_def dget_Nil)
  have k: "map fst (nodes button_state) = [''1:1'', ''1:2'', ''1:3'']"
    by code_simp
  from validate_ok_iff_no_errors[of button_state any_float_ok] v(1) u k
  have a: "(\<exists>rep. printed (cmd_validate any_float_ok button_state) = Some rep
        \<and> ok rep \<and> errors rep = [] \<and> length (warnings rep) = 3)
        \<and> exit_code (cmd_validate any_float_ok button_state) = 0"
    by auto
  have m: "''1:1'' \<in> set (map fst (nodes no_component_state))"
    by code_simp
  have d: "is_dict (dget (decisions no_component_state) ''1:1'')
           \<and> \<not> is_dict (dget (dict_of (dget (decisions no_component_state) ''1:1'')) ''component'')"
    by code_simp
  from validate_ok_iff_no_errors[of no_component_state any_float_ok] v(2) m d
  have b: "(\<exists>rep. printed (cmd_validate any_float_ok no_component_state) = Some rep
        \<and> \<not> ok rep
        \<and> finding_of ''1:1'' ''missing_component_object'' None \<in> set (errors rep))
        \<and> exit_code (cmd_validate any_float_ok no_component_state) = 1"
    by blast
  from a b show ?thesis by blast
qed

text \<open>
  Counterexample to C9 as stated: on a state whose version is not the tool's,
  \<^verbatim>\<open>cmd_validate\<close> ends with the non-zero status 2 and prints no report, so no error
  is present in any error list.
\<close>

theorem validate_unloaded_counterexample:
  "exit_code (cmd_validate any_float_ok other_version_state) = 2
   \<and> printed (cmd_validate any_float_ok other_version_state) = None
   \<and> stderr (cmd_validate any_float_ok other_version_state) = [ErrorLine UnsupportedVersion]"
  by code_simp

section \<open>Progress of the traversal cursor\<close>


lemma bfs_loop_subset: "set (bfs_loop ns q seen acc) \<subseteq> set acc \<union> fst ` set ns"
proof (induction ns q seen acc rule: bfs_loop.induct)
  case (1 ns seen acc)
  show ?case by simp
next
  case (2 ns nid q seen acc)
  show ?case
  proof (cases "nid \<in> seen")
    case True
    with 2(1) show ?thesis by simp
  next
    case False
    show ?thesis
    proof (cases "map_of ns nid")
      case None
      with False 2(2) show ?thesis by simp
    next
      case (Some r)
      then have "nid \<in> fst ` set ns"
        by (auto dest: map_of_SomeD intro: rev_image_eqI)
      with False Some 2(3)[OF False Some] show ?thesis by auto
    qed
  qed
qed

lemma visit_keys_nonempty: "[] \<notin> fst ` set ns \<Longrightarrow> [] \<notin> fst ` set (visit i m v p d ns)"
proof (induction i m v p d ns rule: visit.induct)
  case (1 i m node p d ns)
  show ?case
  proof (cases "should_include_node node i \<and> nonempty_str (dget node ''id'')
                  \<and> \<not> has_key ns (py_str (dget node ''id''))")
    case False
    then show ?thesis using "1.prems" by auto
  next
    case True
    let ?nid = "py_str (dget node ''id'')"
    let ?ns1 = "dset ns ?nid (make_rec i m node ?nid p d)"
    from True have "?nid \<noteq> []"
      by (auto simp: nonempty_str_def split: json.splits)
    then have start: "[] \<notin> fst ` set ?ns1"
      using "1.prems" by (simp add: keys_dset)
    show ?thesis
    proof (cases "dget node ''children''")
      case (JArr cs)
      have "[] \<notin> fst ` set (fold (\<lambda>c ns. if is_dict c then visit i m c (Some ?nid) (d + 1) ns else ns)
                                  cs ?ns1)"
      proof (rule fold_invariant[where P = "\<lambda>b. [] \<notin> fst ` set b"])
        show "[] \<notin> fst ` set ?ns1" by (rule start)
      next
        fix x and b :: node_map assume "x \<in> set cs" and "[] \<notin> fst ` set b"
        then show "[] \<notin> fst ` set (if is_dict x then visit i m x (Some ?nid) (d + 1) b else b)"
          using "1.IH"[of cs x b] True JArr by auto
      qed
      then show ?thesis using True JArr by simp
    qed (use True start in auto)
  qed
qed auto

text \<open>The state that \<^verbatim>\<open>cmd_init\<close> saves.\<close>

lemma cmd_init_saved:
  assumes "saved (cmd_init payload u i m) = Some st0"
  shows "version st0 = STATE_VERSION" and "decisions st0 = []"
    and "set (bfs st0) \<subseteq> fst ` set (nodes st0)" and "[] \<notin> fst ` set (nodes st0)"
proof -
  from assms obtain root_node where
    st0: "st0 = \<lparr> version = STATE_VERSION, uiSystem = u,
                  rootId = py_str (dget root_node ''id''),
                  nodes = visit i m (JObj root_node) None 0 [],
                  bfs = bfs_order (visit i m (JObj root_node) None 0 []) (py_str (dget root_node ''id'')),
                  decisions = [] \<rparr>"
    by (auto simp: cmd_init_def failed_def index_tree_def simp del: visit.simps
             split: sum.splits prod.splits if_splits)
  show "version st0 = STATE_VERSION" and "decisions st0 = []"
    by (simp_all add: st0)
  show "set (bfs st0) \<subseteq> fst ` set (nodes st0)"
    using bfs_loop_subset[of "nodes st0" "[rootId st0]" "{}" "[]"]
    by (simp add: st0 bfs_order_def)
  have "[] \<notin> fst ` set (visit i m (JObj root_node) None 0 [])"
    by (rule visit_keys_nonempty) simp
  then show "[] \<notin> fst ` set (nodes st0)"
    by (simp add: st0)
qed

text \<open>What a run of \<^verbatim>\<open>cmd_apply\<close> leaves in the state file.\<close>

lemma after_apply_cases:
  "after_apply st pay = st
   \<or> (\<exists>ps. version st = STATE_VERSION \<and> normalize_patch_payload pay = Inr ps
          \<and> after_apply st pay = st\<lparr>decisions := fst (apply_patches (nodes st) ps (decisions st))\<rparr>)"
proof (cases "saved (cmd_apply st pay)")
  case None
  then show ?thesis by (simp add: after_apply_def)
next
  case (Some st')
  from cmd_apply_saved[OF Some] Some show ?thesis
    by (auto simp: after_apply_def)
qed

lemma after_apply_frame:
  "nodes (after_apply st pay) = nodes st" "bfs (after_apply st pay) = bfs st"
  "version (after_apply st pay) = version st"
  using after_apply_cases[of st pay] by auto

lemma after_apply_keeps:
  assumes "has_key (decisions st) k"
  shows "has_key (decisions (after_apply st pay)) k"
  using after_apply_cases[of st pay] assms
  by (elim disjE exE conjE) (simp_all add: has_key_dom apply_patches_map)

lemma after_applies_frame:
  "nodes (after_applies st pays) = nodes st \<and> bfs (after_applies st pays) = bfs st
   \<and> version (after_applies st pays) = version st"
  unfolding after_applies_def
  by (induction pays arbitrary: st) (simp_all add: after_apply_frame)

lemma after_applies_keeps:
  "has_key (decisions st) k \<Longrightarrow> has_key (decisions (after_applies st pays)) k"
  unfolding after_applies_def
  by (induction pays arbitrary: st) (simp_all add: after_apply_keeps)

lemma applied_decided:
  assumes "printed (cmd_apply st pay) = Some applied" and "nid \<in> set applied"
  shows "has_key (decisions (after_apply st pay)) nid"
proof -
  from cmd_apply_printed[OF assms(1)] obtain ps where
    ps: "applied = fst (snd (apply_patches (nodes st) ps (decisions st)))"
        "saved (cmd_apply st pay)
           = Some (st\<lparr>decisions := fst (apply_patches (nodes st) ps (decisions st))\<rparr>)"
    by blast
  from fold_apply_patch_lists[of "nodes st" ps "decisions st" "[]" "[]"] ps(1)
  have "applied = map fst (filter (accepted (nodes st)) ps)"
    by (simp add: apply_patches_def)
  with assms(2) have "nid \<in> dom (patch_map (nodes st) ps)"
    by (auto simp: patch_map_dom)
  then show ?thesis
    by (auto simp: after_apply_def ps(2) has_key_dom apply_patches_map)
qed

text \<open>The cursor on a state whose breadth-first order lists indexed, non-empty ids.\<close>

lemma next_node_id_find:
  assumes "[] \<notin> set (bfs st)"
  shows "next_node_id st = find (\<lambda>nid. \<not> has_key (decisions st) nid) (bfs st)"
  unfolding next_node_id_def using assms by (intro find_cong) auto

lemma next_node_id_Some:
  assumes "next_node_id st = Some nid"
  shows "nid \<in> set (bfs st) \<and> nid \<noteq> [] \<and> \<not> has_key (decisions st) nid"
  using assms by (auto simp: next_node_id_def find_Some_iff)

lemma next_node_id_None:
  assumes "[] \<notin> set (bfs st)"
  shows "next_node_id st = None \<longleftrightarrow> (\<forall>nid \<in> set (bfs st). has_key (decisions st) nid)"
  using assms by (auto simp: next_node_id_def find_None_iff)

lemma cmd_next_done:
  assumes "version st = STATE_VERSION" and "next_node_id st = None"
  shows "cmd_next fr st = \<lparr> exit_code = 0, stderr = [], saved = None, printed = Some Done \<rparr>"
  using assms by (simp add: cmd_next_def load_state_def)

lemma cmd_next_node:
  assumes "version st = STATE_VERSION" and "next_node_id st = Some nid"
    and "set (bfs st) \<subseteq> fst ` set (nodes st)"
  shows "\<exists>pd hint. cmd_next fr st
           = \<lparr> exit_code = 0, stderr = [], saved = None, printed = Some (NextNode nid pd hint) \<rparr>"
proof -
  from next_node_id_Some[OF assms(2)] assms(3) have "nid \<in> fst ` set (nodes st)"
    by auto
  then obtain n where "map_of (nodes st) nid = Some n"
    by (metis has_key_def has_key_keys not_Some_eq)
  with assms(1,2) show ?thesis
    by (simp add: cmd_next_def load_state_def)
qed

text \<open>One round of the driver loop decides the node that the cursor returned.\<close>

lemma decide_next_decides:
  assumes "version st = STATE_VERSION" and "set (bfs st) \<subseteq> fst ` set (nodes st)"
    and "next_node_id st = Some nid"
  shows "has_key (decisions (decide_next d st)) nid"
proof -
  let ?pay = "JArr [JObj (dset d ''id'' (JStr nid))]"
  from next_node_id_Some[OF assms(3)] assms(2)
  have nid: "nid \<noteq> []" "has_key (nodes st) nid"
    by (auto simp: has_key_keys)
  have n: "normalize_patch_payload ?pay = Inr [(nid, JObj (AList.delete ''id'' (dset d ''id'' (JStr nid))))]"
    using nid(1)
    by (simp add: normalize_patch_payload_def patch_of_item_def List.map_filter_simps
                  dget_dset nonempty_str_def)
  from cmd_apply_outcome[OF assms(1) n] nid(2)
  have "printed (cmd_apply st ?pay) = Some [nid]"
    by simp
  from applied_decided[OF this] show ?thesis
    by (simp add: decide_next_def assms(3))
qed

lemma decide_next_frame:
  "nodes (decide_next d st) = nodes st" "bfs (decide_next d st) = bfs st"
  "version (decide_next d st) = version st"
  by (simp_all add: decide_next_def after_apply_frame split: option.splits)

lemma decide_next_keeps:
  "has_key (decisions st) k \<Longrightarrow> has_key (decisions (decide_next d st)) k"
  by (simp add: decide_next_def after_apply_keeps split: option.splits)

lemma decide_next_card:
  assumes "version st = STATE_VERSION" and "set (bfs st) \<subseteq> fst ` set (nodes st)"
    and "[] \<notin> set (bfs st)"
  shows "card {nid \<in> set (bfs st). \<not> has_key (decisions (decide_next d st)) nid}
           \<le> card {nid \<in> set (bfs st). \<not> has_key (decisions st) nid} - 1"
proof (cases "next_node_id st")
  case None
  with next_node_id_None[OF assms(3)]
  have e: "{nid \<in> set (bfs st). \<not> has_key (decisions (decide_next d st)) nid} = {}"
    by (auto simp: decide_next_keeps)
  show ?thesis
    unfolding e by simp
next
  case (Some nid)
  let ?U = "{k \<in> set (bfs st). \<not> has_key (decisions st) k}"
  let ?U' = "{k \<in> set (bfs st). \<not> has_key (decisions (decide_next d st)) k}"
  from next_node_id_Some[OF Some] have "nid \<in> ?U"
    by simp
  moreover from decide_next_decides[OF assms(1,2) Some] have "nid \<notin> ?U'"
    by simp
  moreover have "?U' \<subseteq> ?U"
    by (auto simp: decide_next_keeps)
  ultimately have "?U' \<subseteq> ?U - {nid}" and "nid \<in> ?U"
    by auto
  then have "card ?U' \<le> card (?U - {nid})"
    by (intro card_mono) auto
  also have "\<dots> = card ?U - 1"
    using \<open>nid \<in> ?U\<close> by (simp add: card_Diff_singleton)
  finally show ?thesis .
qed

lemma fold_decide_next_frame:
  "nodes (fold decide_next ds st) = nodes st \<and> bfs (fold decide_next ds st) = bfs st
   \<and> version (fold decide_next ds st) = version st"
  by (induction ds arbitrary: st) (simp_all add: decide_next_frame)

lemma fold_decide_next_card:
  assumes "version st = STATE_VERSION" and "set (bfs st) \<subseteq> fst ` set (nodes st)"
    and "[] \<notin> set (bfs st)"
  shows "card {nid \<in> set (bfs st). \<not> has_key (decisions (fold decide_next ds st)) nid}
           \<le> card {nid \<in> set (bfs st). \<not> has_key (decisions st) nid} - length ds"
  using assms
proof (induction ds arbitrary: st)
  case Nil
  then show ?case by simp
next
  case (Cons d ds)
  let ?st = "decide_next d st"
  have g: "version ?st = STATE_VERSION" "set (bfs ?st) \<subseteq> fst ` set (nodes ?st)" "[] \<notin> set (bfs ?st)"
    using Cons.prems by (simp_all add: decide_next_frame)
  from Cons.IH[OF g]
  have "card {nid \<in> set (bfs st). \<not> has_key (decisions (fold decide_next ds ?st)) nid}
          \<le> card {nid \<in> set (bfs st). \<not> has_key (decisions ?st) nid} - length ds"
    by (simp add: decide_next_frame)
  also have "\<dots> \<le> (card {nid \<in> set (bfs st). \<not> has_key (decisions st) nid} - 1) - length ds"
    using decide_next_card[OF Cons.prems, of d] by (rule diff_le_mono)
  finally show ?case by simp
qed

lemma undecided_le_nodes:
  assumes "set (bfs st) \<subseteq> fst ` set (nodes st)"
  shows "card {nid \<in> set (bfs st). \<not> has_key (decisions st) nid} \<le> length (nodes st)"
proof -
  have "card {nid \<in> set (bfs st). \<not> has_key (decisions st) nid} \<le> card (fst ` set (nodes st))"
    using assms by (intro card_mono) auto
  also have "\<dots> \<le> card (set (nodes st))"
    by (rule card_image_le) simp
  also have "\<dots> \<le> length (nodes st)"
    by (rule card_length)
  finally show ?thesis .
qed

text \<open>
  Claim C1. Let \<open>st0\<close> be the state that \<^verbatim>\<open>cmd_init\<close> saved and \<open>st\<close> the
  state after any runs of \<^verbatim>\<open>cmd_apply\<close> on it. The breadth-first order and the
  node map of \<open>st\<close> are those of \<open>st0\<close>. The cursor \<^verbatim>\<open>_next_node_id\<close> returns
  the first id of that order that has no entry in the Decision Store;
  \<^verbatim>\<open>cmd_next\<close> prints done exactly when every id of the order has an entry, and
  otherwise prints the bundle of the id the cursor returned, with status 0. Once
  a run of \<^verbatim>\<open>cmd_apply\<close> reports an id as applied, and in particular once a round
  \<open>decide_next\<close> has applied a decision for the id the cursor returned, the
  cursor never returns that id again, whatever is applied later. After as many
  rounds as \<open>st0\<close> has nodes, whatever the decisions, \<^verbatim>\<open>cmd_next\<close> prints done.
\<close>

theorem cursor_progress:
  assumes "saved (cmd_init payload u i m) = Some st0"
    and "st = after_applies st0 pays"
  shows "bfs st = bfs st0 \<and> nodes st = nodes st0
     \<and> next_node_id st = find (\<lambda>nid. \<not> has_key (decisions st) nid) (bfs st0)
     \<and> (printed (cmd_next fr st) = Some Done
          \<longleftrightarrow> (\<forall>nid \<in> set (bfs st0). has_key (decisions st) nid))
     \<and> (\<forall>nid. next_node_id st = Some nid \<longrightarrow>
           (\<exists>pd hint. cmd_next fr st
              = \<lparr> exit_code = 0, stderr = [], saved = None, printed = Some (NextNode nid pd hint) \<rparr>))
     \<and> (next_node_id st = None \<longrightarrow>
           cmd_next fr st = \<lparr> exit_code = 0, stderr = [], saved = None, printed = Some Done \<rparr>)
     \<and> (\<forall>pay applied nid more.
           printed (cmd_apply st pay) = Some applied \<and> nid \<in> set applied \<longrightarrow>
             next_node_id (after_applies (after_apply st pay) more) \<noteq> Some nid)
     \<and> (\<forall>nid d more.
           next_node_id st = Some nid \<longrightarrow>
             next_node_id (after_applies (decide_next d st) more) \<noteq> Some nid)
     \<and> (\<forall>ds. length ds = length (nodes st0) \<longrightarrow>
           printed (cmd_next fr (fold decide_next ds st)) = Some Done)"
proof -
  note init = cmd_init_saved[OF assms(1)]
  have fr: "nodes st = nodes st0" "bfs st = bfs st0" "version st = STATE_VERSION"
    using after_applies_frame[of st0 pays] init(1) by (simp_all add: assms(2))
  have sub: "set (bfs st) \<subseteq> fst ` set (nodes st)"
    using init(3) by (simp add: fr)
  have ne: "[] \<notin> set (bfs st)"
    using init(3,4) by (auto simp: fr)
  have a: "next_node_id st = find (\<lambda>nid. \<not> has_key (decisions st) nid) (bfs st0)"
    using next_node_id_find[OF ne] by (simp add: fr)
  have some: "\<exists>pd hint. cmd_next fr st
              = \<lparr> exit_code = 0, stderr = [], saved = None, printed = Some (NextNode nid pd hint) \<rparr>"
    if "next_node_id st = Some nid" for nid
    using cmd_next_node[OF fr(3) that sub] .
  have none: "cmd_next fr st = \<lparr> exit_code = 0, stderr = [], saved = None, printed = Some Done \<rparr>"
    if "next_node_id st = None"
    using cmd_next_done[OF fr(3) that] .
  have b: "printed (cmd_next fr st) = Some Done
          \<longleftrightarrow> (\<forall>nid \<in> set (bfs st0). has_key (decisions st) nid)"
  proof (cases "next_node_id st")
    case None
    with none next_node_id_None[OF ne] show ?thesis
      by (simp add: fr)
  next
    case (Some nid)
    from some[OF Some] obtain pd hint where "printed (cmd_next fr st) = Some (NextNode nid pd hint)"
      by auto
    moreover from Some next_node_id_None[OF ne] have "\<not> (\<forall>nid \<in> set (bfs st0). has_key (decisions st) nid)"
      by (simp add: fr)
    ultimately show ?thesis by simp
  qed
  have c: "next_node_id (after_applies (after_apply st pay) more) \<noteq> Some nid"
    if "printed (cmd_apply st pay) = Some applied \<and> nid \<in> set applied" for pay applied nid more
  proof -
    from that have "has_key (decisions (after_apply st pay)) nid"
      using applied_decided by blast
    then have "has_key (decisions (after_applies (after_apply st pay) more)) nid"
      by (rule after_applies_keeps)
    then show ?thesis
      using next_node_id_Some by blast
  qed
  have d: "next_node_id (after_applies (decide_next d st) more) \<noteq> Some nid"
    if "next_node_id st = Some nid" for nid d more
  proof -
    from decide_next_decides[OF fr(3) sub that]
    have "has_key (decisions (after_applies (decide_next d st) more)) nid"
      by (rule after_applies_keeps)
    then show ?thesis
      using next_node_id_Some by blast
  qed
  have e: "printed (cmd_next fr (fold decide_next ds st)) = Some Done"
    if "length ds = length (nodes st0)" for ds
  proof -
    let ?st = "fold decide_next ds st"
    have f: "nodes ?st = nodes st" "bfs ?st = bfs st" "version ?st = STATE_VERSION"
      using fold_decide_next_frame[of ds st] fr(3) by simp_all
    from fold_decide_next_card[OF fr(3) sub ne, of ds] undecided_le_nodes[OF sub] that
    have "card {nid \<in> set (bfs st). \<not> has_key (decisions ?st) nid} = 0"
      by (simp add: fr)
    then have "\<forall>nid \<in> set (bfs ?st). has_key (decisions ?st) nid"
      by (auto simp: f)
    moreover have "[] \<notin> set (bfs ?st)"
      using ne by (simp add: f)
    ultimately have "next_node_id ?st = None"
      by (simp add: next_node_id_None)
    from cmd_next_done[OF f(3) this] show ?thesis
      by simp
  qed
  from fr(1,2) a b some none c d e show ?thesis
    by blast
qed

text \<open>
  Witness for C1 on the state that \<^verbatim>\<open>cmd_init\<close> saves for \<open>button_tree\<close>, which
  has three nodes. The cursor first returns the root \<^verbatim>\<open>1:1\<close>; once a decision for
  it is applied, the cursor does not return \<^verbatim>\<open>1:1\<close> again, also after a later patch
  for \<^verbatim>\<open>1:3\<close>; after three rounds the cursor prints done.
\<close>

theorem cursor_progress_witness:
  "saved (cmd_init button_tree ''UIKit'' False 200) = Some button_state
   \<and> next_node_id button_state = Some ''1:1''
   \<and> next_node_id (after_applies
         (decide_next [(''component'', JObj [(''base'', JStr ''UIButton'')])] button_state)
         [patch_icon]) \<noteq> Some ''1:1''
   \<and> printed (cmd_next no_float_repr (fold decide_next [[], [], []] button_state)) = Some Done"
proof -
  have 1: "saved (cmd_init button_tree ''UIKit'' False 200) = Some button_state"
    by (simp add: cmd_init_button_tree)
  have 2: "button_state = after_applies button_state []"
    by (simp add: after_applies_def)
  have 3: "next_node_id button_state = Some ''1:1''"
    by code_simp
  have 4: "length [[], [], []::pydict] = length (nodes button_state)"
    by code_simp
  from cursor_progress[OF 1 2, of no_float_repr] 3 4
  have "next_node_id (after_applies
         (decide_next [(''component'', JObj [(''base'', JStr ''UIButton'')])] button_state)
         [patch_icon]) \<noteq> Some ''1:1''
      \<and> printed (cmd_next no_float_repr (fold decide_next [[], [], []] button_state)) = Some Done"
    by blast
  with 1 3 show ?thesis by blast
qed

end
